theory Spec2Isabelle
  imports Complex_Main
begin

section \<open>The documentation inventory of \<open>monty/exts/info/docs/_cog.py\<close>\<close>

text \<open>
  A shallow embedding of the symbol table that \<open>DocCog\<close> builds from intersphinx
  inventories: \<open>DocItem\<close>, \<open>update_single\<close>, \<open>ensure_unique_symbol_name\<close>,
  \<open>get_symbol_item\<close>, \<open>update_or_reschedule_inventory\<close>, the score tweak of
  \<open>_docs_autocomplete\<close>, and \<open>create_symbol_embed\<close> interleaved with
  \<open>refresh_inventories\<close>. Python strings are \<open>string\<close>, with the characters of the code
  points 0 to 255.
\<close>

subsection \<open>String helpers\<close>

text \<open>\<open>s.split(c)\<close> for a one-character separator: \<open>"".split(":") == [""]\<close>.\<close>

fun split_sep :: "char \<Rightarrow> string \<Rightarrow> string list" where
  "split_sep c [] = [[]]"
| "split_sep c (x # xs) =
     (if x = c then [] # split_sep c xs
      else (case split_sep c xs of [] \<Rightarrow> [[x]] | p # ps \<Rightarrow> (x # p) # ps))"

text \<open>\<open>s.partition(c)\<close>: the text before the first \<open>c\<close>, the separator, the text after it;
  \<open>(s, "", "")\<close> when \<open>c\<close> does not occur.\<close>

definition partition_sep :: "char \<Rightarrow> string \<Rightarrow> string \<times> string \<times> string" where
  "partition_sep c s =
     (if c \<in> set s then (takeWhile (\<lambda>x. x \<noteq> c) s, [c], tl (dropWhile (\<lambda>x. x \<noteq> c) s))
      else (s, [], []))"

text \<open>\<open>s.rsplit(c, 1)[0]\<close>: the text before the last \<open>c\<close>, the whole of \<open>s\<close> when \<open>c\<close>
  does not occur.\<close>

definition rsplit_head :: "char \<Rightarrow> string \<Rightarrow> string" where
  "rsplit_head c s =
     (if c \<in> set s then rev (tl (dropWhile (\<lambda>x. x \<noteq> c) (rev s))) else s)"

text \<open>\<open>s.split(c, maxsplit=1)[0]\<close>: the text before the first \<open>c\<close>.\<close>

definition split_head :: "char \<Rightarrow> string \<Rightarrow> string" where
  "split_head c s = takeWhile (\<lambda>x. x \<noteq> c) s"

text \<open>\<open>xs.index(x)\<close> for an \<open>x\<close> that occurs in \<open>xs\<close> (the source tests membership first).\<close>

fun index_of :: "'a list \<Rightarrow> 'a \<Rightarrow> nat" where
  "index_of [] x = 0"
| "index_of (y # ys) x = (if y = x then 0 else Suc (index_of ys x))"

subsection \<open>Data model\<close>

datatype error = IndexError | KeyError

text \<open>A call either returns a value or raises: \<open>Inl (e, st)\<close> is the exception \<open>e\<close>
  together with the state as the call left it when it raised.\<close>

text \<open>\<open>DocItem\<close>. The \<open>attributes\<close> list holds references to other items; an item is
  referred to by its address in the store \<open>objs\<close> of the state below, so that one item
  stored under two names, or listed in another item's attributes, is one object.\<close>

record DocItem =
  package :: string
  item_group :: string
  base_url :: string
  relative_url_path :: string
  symbol_id :: string
  symbol_name :: string
  attributes :: "nat list"

definition url :: "DocItem \<Rightarrow> string" where
  "url d = base_url d @ relative_url_path d"

type_synonym symtab = "string \<rightharpoonup> nat"

text \<open>A Python \<open>dict\<close> whose order matters, as an association list in insertion order:
  \<open>d.get(k)\<close> and \<open>d[k] = v\<close> (a new key goes to the end).\<close>

fun dict_get :: "('k \<times> 'v) list \<Rightarrow> 'k \<Rightarrow> 'v option" where
  "dict_get [] k = None"
| "dict_get ((k', v') # xs) k = (if k' = k then Some v' else dict_get xs k)"

fun dict_set :: "('k \<times> 'v) list \<Rightarrow> 'k \<Rightarrow> 'v \<Rightarrow> ('k \<times> 'v) list" where
  "dict_set [] k v = [(k, v)]"
| "dict_set ((k', v') # xs) k v =
     (if k' = k then (k, v) # xs else (k', v') # dict_set xs k v)"

text \<open>\<open>ChainMap(*maps).get(k)\<close>: the first map that has the key answers.\<close>

fun chain_get :: "('k \<rightharpoonup> 'v) list \<Rightarrow> 'k \<Rightarrow> 'v option" where
  "chain_get [] k = None"
| "chain_get (m # ms) k = (case m k of Some v \<Rightarrow> Some v | None \<Rightarrow> chain_get ms k)"

text \<open>The part of \<open>DocCog\<close> (and the module's \<open>BLACKLIST\<close>) that the inventory code reads
  and writes. \<open>renamed_symbols\<close> is a \<open>defaultdict(list)\<close>: a name never appended to has the
  empty list. \<open>inventory_scheduler\<close> maps a scheduled task id to its delay in seconds.\<close>

record state =
  base_urls :: "(string \<times> string) list"
  doc_symbols_new :: "(string \<times> symtab) list"
  renamed_symbols :: "string \<Rightarrow> string list"
  objs :: "DocItem list"
  BLACKLIST :: "int \<rightharpoonup> string set"
  inventory_scheduler :: "string \<rightharpoonup> nat"

definition init_state :: state where
  "init_state = \<lparr> base_urls = [], doc_symbols_new = [], renamed_symbols = (\<lambda>_. []),
     objs = [], BLACKLIST = Map.empty, inventory_scheduler = Map.empty \<rparr>"

definition doc_symbols_all :: "state \<Rightarrow> string \<Rightarrow> nat option" where
  "doc_symbols_all st = chain_get (map snd (doc_symbols_new st))"

definition FORCE_PREFIX_GROUPS :: "string list" where
  "FORCE_PREFIX_GROUPS = [''term'', ''label'', ''token'', ''doc'', ''pdbcommand'', ''2to3fixer'']"

subsection \<open>\<open>ensure_unique_symbol_name\<close>\<close>

text \<open>The inner function \<open>rename\<close>. It closes over the arguments of
  \<open>ensure_unique_symbol_name\<close> and over \<open>item\<close>, the existing entry found under the name;
  they are passed explicitly. \<open>self.doc_symbols_new[package]\<close> raises \<open>KeyError\<close> for a
  package without a table, after the ledger has been appended to.\<close>

definition rename ::
  "string \<Rightarrow> string \<Rightarrow> string \<Rightarrow> nat \<Rightarrow> string \<Rightarrow> bool \<Rightarrow> state
     \<Rightarrow> (error \<times> state) + (string \<times> state)" where
  "rename package_name group_name sname item prefix rename_extant st =
     (let new_name0 = prefix @ ''.'' @ sname;
          new_name =
            (if doc_symbols_all st new_name0 \<noteq> None
             then (if rename_extant
                   then package (objs st ! item) @ ''.'' @ item_group (objs st ! item) @ ''.'' @ sname
                   else package_name @ ''.'' @ group_name @ ''.'' @ sname)
             else new_name0);
          st1 = st\<lparr>renamed_symbols :=
                   (renamed_symbols st)(sname := renamed_symbols st sname @ [new_name])\<rparr>
      in if rename_extant
         then (case doc_symbols_all st1 sname of
                 None \<Rightarrow> Inl (KeyError, st1)
               | Some conflicting_symbol \<Rightarrow>
                   (let pkg = package (objs st1 ! conflicting_symbol) in
                    case dict_get (doc_symbols_new st1) pkg of
                      None \<Rightarrow> Inl (KeyError, st1)
                    | Some tbl \<Rightarrow>
                        Inr (sname,
                             st1\<lparr>doc_symbols_new :=
                                   dict_set (doc_symbols_new st1) pkg
                                     (tbl(new_name \<mapsto> conflicting_symbol))\<rparr>)))
         else Inr (new_name, st1))"

text \<open>\<open>PRIORITY_PACKAGES\<close> is imported from the package's \<open>__init__\<close>; it is the
  parameter \<open>prio\<close>.\<close>

definition ensure_unique_symbol_name ::
  "string list \<Rightarrow> string \<Rightarrow> string \<Rightarrow> string \<Rightarrow> state
     \<Rightarrow> (error \<times> state) + (string \<times> state)" where
  "ensure_unique_symbol_name prio package_name group_name sname st =
     (case doc_symbols_all st sname of
        None \<Rightarrow> Inr (sname, st)
      | Some item \<Rightarrow>
          if package_name \<noteq> package (objs st ! item)
          then (if package_name \<in> set prio
                then rename package_name group_name sname item
                       (package (objs st ! item)) True st
                else rename package_name group_name sname item package_name False st)
          else if group_name \<in> set FORCE_PREFIX_GROUPS
          then (let needs_moving =
                      (if item_group (objs st ! item) \<in> set FORCE_PREFIX_GROUPS
                       then index_of FORCE_PREFIX_GROUPS group_name
                              < index_of FORCE_PREFIX_GROUPS (item_group (objs st ! item))
                       else False)
                in rename package_name group_name sname item
                     (if needs_moving then item_group (objs st ! item) else group_name)
                     needs_moving st)
          else rename package_name group_name sname item
                 (item_group (objs st ! item)) True st)"

subsection \<open>\<open>update_single\<close>\<close>

text \<open>The body of the inner loop of \<open>update_single\<close>, for one \<open>(symbol_name,
  relative_doc_url)\<close> of the items listed under \<open>group\<close>, in two parts. \<open>store_item\<close> is
  what follows the call of \<open>ensure_unique_symbol_name\<close>: it builds the \<open>DocItem\<close> (at the
  next free address), stores it in the package's table under \<open>name\<close>, enters the name in
  the blacklists and appends the item to the attributes of \<open>parent\<close>. The call
  \<open>item_fetcher.add_item\<close> hands the item to the page parser and is left out.\<close>

definition store_item ::
  "string \<Rightarrow> string \<Rightarrow> int list \<Rightarrow> string \<Rightarrow> string \<Rightarrow> string \<Rightarrow> state \<Rightarrow> state" where
  "store_item package_name burl blacklist_guilds group_name name relative_doc_url st1 =
     (let (rel_path, _, sym_id) = partition_sep CHR ''#'' relative_doc_url;
          addr = length (objs st1);
          doc_item = \<lparr> package = package_name, item_group = group_name,
                       base_url = burl, relative_url_path = rel_path,
                       symbol_id = sym_id, symbol_name = name, attributes = [] \<rparr>;
          tbl = (case dict_get (doc_symbols_new st1) package_name of
                   None \<Rightarrow> Map.empty | Some t \<Rightarrow> t);
          tbl' = tbl(name \<mapsto> addr);
          st2 = st1\<lparr>objs := objs st1 @ [doc_item],
                    doc_symbols_new := dict_set (doc_symbols_new st1) package_name tbl'\<rparr>;
          st3 = st2\<lparr>BLACKLIST :=
                    fold (\<lambda>guild_id b.
                            b(guild_id \<mapsto>
                              insert name (case b guild_id of None \<Rightarrow> {} | Some ns \<Rightarrow> ns)))
                         blacklist_guilds (BLACKLIST st2)\<rparr>
      in case tbl' (rsplit_head CHR ''.'' name) of
           None \<Rightarrow> st3
         | Some parent \<Rightarrow>
             if package (objs st3 ! parent) = package_name
             then st3\<lparr>objs := (objs st3)
                         [parent := (objs st3 ! parent)
                            \<lparr>attributes := attributes (objs st3 ! parent) @ [addr]\<rparr>]\<rparr>
             else st3)"

text \<open>\<open>group.split(":")[1]\<close> raises \<open>IndexError\<close> for a group without a colon.\<close>

definition update_item ::
  "string list \<Rightarrow> string \<Rightarrow> string \<Rightarrow> int list \<Rightarrow> string \<Rightarrow> string \<times> string \<Rightarrow> state
     \<Rightarrow> (error \<times> state) + state" where
  "update_item prio package_name burl blacklist_guilds grp entry st =
     (let parts = split_sep CHR '':'' grp in
      if length parts < 2 then Inl (IndexError, st)
      else
        (let group_name = parts ! 1 in
         case ensure_unique_symbol_name prio package_name group_name (fst entry) st of
           Inl e \<Rightarrow> Inl e
         | Inr (name, st1) \<Rightarrow>
             Inr (store_item package_name burl blacklist_guilds group_name name
                    (snd entry) st1)))"

text \<open>The two loops, over the items of a group and over the groups of the inventory
  (a dict from \<open>"domain:role"\<close> to a list of pairs, in its order).\<close>

type_synonym inventory = "(string \<times> (string \<times> string) list) list"

fun update_items ::
  "string list \<Rightarrow> string \<Rightarrow> string \<Rightarrow> int list \<Rightarrow> string \<Rightarrow> (string \<times> string) list \<Rightarrow> state
     \<Rightarrow> (error \<times> state) + state" where
  "update_items prio package_name burl bl grp [] st = Inr st"
| "update_items prio package_name burl bl grp (entry # entries) st =
     (case update_item prio package_name burl bl grp entry st of
        Inl e \<Rightarrow> Inl e
      | Inr st' \<Rightarrow> update_items prio package_name burl bl grp entries st')"

fun update_groups ::
  "string list \<Rightarrow> string \<Rightarrow> string \<Rightarrow> int list \<Rightarrow> inventory \<Rightarrow> state
     \<Rightarrow> (error \<times> state) + state" where
  "update_groups prio package_name burl bl [] st = Inr st"
| "update_groups prio package_name burl bl ((grp, entries) # rest) st =
     (case update_items prio package_name burl bl grp entries st of
        Inl e \<Rightarrow> Inl e
      | Inr st' \<Rightarrow> update_groups prio package_name burl bl rest st')"

definition update_single ::
  "string list \<Rightarrow> string \<Rightarrow> string \<Rightarrow> inventory \<Rightarrow> int list \<Rightarrow> state
     \<Rightarrow> (error \<times> state) + state" where
  "update_single prio package_name burl inventory blacklist_guilds st =
     update_groups prio package_name burl blacklist_guilds inventory
       (st\<lparr>base_urls := dict_set (base_urls st) package_name burl\<rparr>)"

subsection \<open>\<open>update_or_reschedule_inventory\<close> and the refresh\<close>

text \<open>What \<open>await fetch_inventory(inventory_url)\<close> gives: it raises
  \<open>InvalidHeaderError\<close> with a reason, or returns the parsed inventory; a fetch that failed
  returns nothing (\<open>None\<close>), and \<open>not package\<close> also holds of an empty inventory.\<close>

datatype fetch_result = InvalidHeaderError string | Fetched "inventory option"

definition FETCH_RESCHEDULE_DELAY_first :: nat where
  "FETCH_RESCHEDULE_DELAY_first = 2"

definition FETCH_RESCHEDULE_DELAY_repeated :: nat where
  "FETCH_RESCHEDULE_DELAY_repeated = 5"

text \<open>Modelled from the spec: the class \<open>Scheduler\<close> of \<open>monty.utils.scheduling\<close> is not
  among the source files. The spec calls its tasks "independent cancellable" retry timers,
  one per source: the scheduler is the map from the ids of the scheduled tasks to their
  delays; \<open>in\<close> tests for an id, \<open>cancel\<close> removes it, \<open>schedule_later\<close> enters it. A task
  stays scheduled while its coroutine runs, so a retry finds its own id.\<close>

definition scheduler_contains :: "state \<Rightarrow> string \<Rightarrow> bool" where
  "scheduler_contains st task_id = (inventory_scheduler st task_id \<noteq> None)"

definition scheduler_cancel :: "string \<Rightarrow> state \<Rightarrow> state" where
  "scheduler_cancel task_id st =
     st\<lparr>inventory_scheduler := (inventory_scheduler st)(task_id := None)\<rparr>"

definition schedule_later :: "nat \<Rightarrow> string \<Rightarrow> state \<Rightarrow> state" where
  "schedule_later delay task_id st =
     st\<lparr>inventory_scheduler := (inventory_scheduler st)(task_id \<mapsto> delay)\<rparr>"

definition scheduler_cancel_all :: "state \<Rightarrow> state" where
  "scheduler_cancel_all st = st\<lparr>inventory_scheduler := Map.empty\<rparr>"

text \<open>\<open>inventory_url.removesuffix("/").rsplit("/", maxsplit=1)[0] + "/"\<close>\<close>

definition base_url_from_inventory_url :: "string \<Rightarrow> string" where
  "base_url_from_inventory_url inventory_url =
     rsplit_head CHR ''/''
       (if inventory_url \<noteq> [] \<and> last inventory_url = CHR ''/''
        then butlast inventory_url else inventory_url) @ ''/''"

text \<open>\<open>update_or_reschedule_inventory\<close>, with the outcome of the fetch as the argument
  \<open>fetched\<close>. The result is paired with the messages the call gives to \<open>log.warning\<close>.
  The keys of \<open>BLACKLIST_MAPPING\<close> are guild ids of \<open>monty.constants\<close>; the mapping is the
  parameter \<open>blacklist_mapping\<close>.\<close>

definition update_or_reschedule_inventory ::
  "string list \<Rightarrow> (int \<times> string list) list \<Rightarrow> string \<Rightarrow> string \<Rightarrow> string \<Rightarrow> fetch_result
     \<Rightarrow> state \<Rightarrow> string list \<times> ((error \<times> state) + state)" where
  "update_or_reschedule_inventory prio blacklist_mapping api_package_name burl inventory_url
       fetched st =
     (case fetched of
        InvalidHeaderError e \<Rightarrow>
          ([''Invalid inventory header at '' @ inventory_url @ ''. Reason: '' @ e], Inr st)
      | Fetched pkg \<Rightarrow>
          (case (case pkg of None \<Rightarrow> None | Some [] \<Rightarrow> None | Some (g # gs) \<Rightarrow> Some (g # gs)) of
             None \<Rightarrow>
               (let (st1, delay) =
                      (if scheduler_contains st api_package_name
                       then (scheduler_cancel api_package_name st,
                             FETCH_RESCHEDULE_DELAY_repeated)
                       else (st, FETCH_RESCHEDULE_DELAY_first))
                in ([], Inr (schedule_later (delay * 60) api_package_name st1)))
           | Some inventory \<Rightarrow>
               (let burl' = (if burl = [] then base_url_from_inventory_url inventory_url
                             else burl);
                    blacklist_guilds =
                      map fst (filter (\<lambda>(g, packs). api_package_name \<in> set packs)
                                 blacklist_mapping)
                in ([], update_single prio api_package_name burl' inventory blacklist_guilds st))))"

text \<open>The retries of one source. A failed fetch schedules the same coroutine again, and
  the scheduled task runs it with the outcome of its own fetch: \<open>outcomes\<close> lists the
  outcomes of the successive fetches. The chain ends with the first fetch that does not
  call for a retry.\<close>

definition fetch_failed :: "fetch_result \<Rightarrow> bool" where
  "fetch_failed f = (f = Fetched None \<or> f = Fetched (Some []))"

fun retry_chain ::
  "string list \<Rightarrow> (int \<times> string list) list \<Rightarrow> string \<Rightarrow> string \<Rightarrow> string \<Rightarrow> fetch_result list
     \<Rightarrow> state \<Rightarrow> (error \<times> state) + state" where
  "retry_chain prio bm p b u [] st = Inr st"
| "retry_chain prio bm p b u (f # fs) st =
     (case snd (update_or_reschedule_inventory prio bm p b u f st) of
        Inl e \<Rightarrow> Inl e
      | Inr st' \<Rightarrow> if fetch_failed f then retry_chain prio bm p b u fs st' else Inr st')"

text \<open>\<open>asyncio.gather\<close> over one \<open>update_or_reschedule_inventory\<close> per package. A
  coroutine is suspended only while it fetches, so the updates take effect one after the
  other, in the order in which the fetches return: \<open>packages\<close> lists the package name, base
  url, inventory url and fetch outcome in that order. A coroutine that raises does not
  stop the others; the first exception is the one \<open>gather\<close> raises. The result is the
  warnings logged, that exception if any, and the state.\<close>

fun gather_updates ::
  "string list \<Rightarrow> (int \<times> string list) list
     \<Rightarrow> (string \<times> string \<times> string \<times> fetch_result) list \<Rightarrow> state
     \<Rightarrow> string list \<times> error option \<times> state" where
  "gather_updates prio bm [] st = ([], None, st)"
| "gather_updates prio bm ((p, b, u, f) # rest) st =
     (case update_or_reschedule_inventory prio bm p b u f st of
        (w, Inr st') \<Rightarrow>
          (case gather_updates prio bm rest st' of (ws, r) \<Rightarrow> (w @ ws, r))
      | (w, Inl (e, st')) \<Rightarrow>
          (case gather_updates prio bm rest st' of (ws, _, s) \<Rightarrow> (w @ ws, Some e, s)))"

text \<open>Lines 459 to 463 of \<open>refresh_inventories\<close>: cancel the retries, clear the base
  urls, the tables and the ledger. \<open>BLACKLIST\<close> is not cleared.\<close>

definition clear_inventories :: "state \<Rightarrow> state" where
  "clear_inventories st =
     (scheduler_cancel_all st)
       \<lparr>base_urls := [], doc_symbols_new := [], renamed_symbols := (\<lambda>_. [])\<rparr>"

text \<open>The table side of \<open>refresh_inventories\<close> run without interruption: clear, then
  rebuild. (The two events of the gate are modelled further down, with the coroutines
  interleaved; the whitelist is not modelled.)\<close>

definition refresh_inventories ::
  "string list \<Rightarrow> (int \<times> string list) list
     \<Rightarrow> (string \<times> string \<times> string \<times> fetch_result) list \<Rightarrow> state
     \<Rightarrow> string list \<times> error option \<times> state" where
  "refresh_inventories prio bm packages st =
     gather_updates prio bm packages (clear_inventories st)"

subsection \<open>The score tweak of \<open>_docs_autocomplete\<close>\<close>

text \<open>A character of the model is one of the code points 0 to 255 of a Python string.
  \<open>str.lower()\<close> maps the letters \<open>A\<close> to \<open>Z\<close> and the capital letters 0xC0 to 0xDE of that
  range (0xD7, the multiplication sign, is not one) to the letters 0x20 above them, and
  leaves the other characters of the range as they are.\<close>

definition upper_chars :: "char list" where
  "upper_chars = ''ABCDEFGHIJKLMNOPQRSTUVWXYZ'' @
     [CHR 0xC0, CHR 0xC1, CHR 0xC2, CHR 0xC3, CHR 0xC4, CHR 0xC5, CHR 0xC6,
     CHR 0xC7, CHR 0xC8, CHR 0xC9, CHR 0xCA, CHR 0xCB, CHR 0xCC, CHR 0xCD,
     CHR 0xCE, CHR 0xCF, CHR 0xD0, CHR 0xD1, CHR 0xD2, CHR 0xD3, CHR 0xD4,
     CHR 0xD5, CHR 0xD6, CHR 0xD8, CHR 0xD9, CHR 0xDA, CHR 0xDB, CHR 0xDC,
     CHR 0xDD, CHR 0xDE]"

definition lower_chars :: "char list" where
  "lower_chars = ''abcdefghijklmnopqrstuvwxyz'' @
     [CHR 0xE0, CHR 0xE1, CHR 0xE2, CHR 0xE3, CHR 0xE4, CHR 0xE5, CHR 0xE6,
     CHR 0xE7, CHR 0xE8, CHR 0xE9, CHR 0xEA, CHR 0xEB, CHR 0xEC, CHR 0xED,
     CHR 0xEE, CHR 0xEF, CHR 0xF0, CHR 0xF1, CHR 0xF2, CHR 0xF3, CHR 0xF4,
     CHR 0xF5, CHR 0xF6, CHR 0xF8, CHR 0xF9, CHR 0xFA, CHR 0xFB, CHR 0xFC,
     CHR 0xFD, CHR 0xFE]"

definition lower_char :: "char \<Rightarrow> char" where
  "lower_char c =
     (case map_of (zip upper_chars lower_chars) c of
        Some l \<Rightarrow> l
      | None \<Rightarrow> c)"

definition lower :: "string \<Rightarrow> string" where
  "lower s = map lower_char s"

text \<open>\<open>str.strip()\<close> removes the characters of which \<open>str.isspace()\<close> holds; in the range
  0 to 255 these are the space, 0x09 to 0x0D, 0x1C to 0x1F, 0x85 and 0xA0.\<close>

definition is_space :: "char \<Rightarrow> bool" where
  "is_space c = (c \<in> set [CHR '' '', CHR 0x09, CHR 0x0A, CHR 0x0B, CHR 0x0C, CHR 0x0D,
                            CHR 0x1C, CHR 0x1D, CHR 0x1E, CHR 0x1F, CHR 0x85, CHR 0xA0])"

definition strip :: "string \<Rightarrow> string" where
  "strip s = rev (dropWhile is_space (rev (dropWhile is_space s)))"

fun starts_with :: "string \<Rightarrow> string \<Rightarrow> bool" where
  "starts_with [] s = True"
| "starts_with (p # ps) [] = False"
| "starts_with (p # ps) (x # xs) = (p = x \<and> starts_with ps xs)"

text \<open>\<open>sub in s\<close> for strings.\<close>

fun str_contains :: "string \<Rightarrow> string \<Rightarrow> bool" where
  "str_contains sub [] = (sub = [])"
| "str_contains sub (x # xs) = (starts_with sub (x # xs) \<or> str_contains sub xs)"

text \<open>One round of the loop over \<open>fuzzed\<close>. The first test compares the lower-cased name
  with \<open>query\<close>, the second uses \<open>lower_query\<close>. The scores of \<open>rapidfuzz\<close> are floats and
  the model adds and compares them as reals: the two agree where the float sums are exact,
  which holds of the scores that are integers or have few binary digits; a sum that the
  floats round (9.999999999999998 + 20 is 30.0) can fall on the other side of the
  threshold than the real sum.\<close>

definition tweak_score :: "string \<Rightarrow> string \<times> real \<Rightarrow> string \<times> real" where
  "tweak_score query cand =
     (let lower_query = lower query;
          name = fst cand;
          lower_name = lower name;
          score1 = (if lower_name = query then snd cand + 50 else snd cand);
          score2 = (if str_contains lower_query lower_name then score1 + 20 else score1)
      in (name, score2))"

text \<open>\<open>sorted(tweak, key=lambda v: v[1], reverse=True)\<close>: descending and stable.\<close>

fun insert_desc :: "string \<times> real \<Rightarrow> (string \<times> real) list \<Rightarrow> (string \<times> real) list" where
  "insert_desc x [] = [x]"
| "insert_desc x (y # ys) = (if snd y \<le> snd x then x # y # ys else y # insert_desc x ys)"

definition sorted_desc :: "(string \<times> real) list \<Rightarrow> (string \<times> real) list" where
  "sorted_desc xs = foldr insert_desc xs []"

text \<open>\<open>_docs_autocomplete\<close>. \<open>default_completion\<close> is the list of
  \<open>_get_default_completion\<close>; \<open>extract q\<close> is what \<open>rapidfuzz.process.extract\<close> returns for
  the stripped query \<open>q\<close> over the visible names, as (name, score) pairs.\<close>

definition docs_autocomplete ::
  "string list \<Rightarrow> (string \<Rightarrow> (string \<times> real) list) \<Rightarrow> string \<Rightarrow> real \<Rightarrow> bool \<Rightarrow> string list" where
  "docs_autocomplete default_completion extract query0 threshold include_query =
     (if query0 = [] then default_completion
      else
        (let query = strip query0;
             fuzzed = extract query;
             tweak = sorted_desc (map (tweak_score query) fuzzed)
         in (if include_query then [query] else [])
              @ map fst (takeWhile (\<lambda>v. \<not> snd v < threshold) tweak)))"

subsection \<open>\<open>get_symbol_item\<close>\<close>

definition get_symbol_item :: "state \<Rightarrow> string \<Rightarrow> string \<times> nat option" where
  "get_symbol_item st sname =
     (let doc_item = doc_symbols_all st sname in
      if doc_item = None \<and> CHR '' '' \<in> set sname
      then (let sname' = split_head CHR '' '' sname
            in (sname', doc_symbols_all st sname'))
      else (sname, doc_item))"

subsection \<open>Example states\<close>

text \<open>A table with the one source \<open>alpha\<close> and its one symbol \<open>foo\<close>.\<close>

definition st_foo :: state where
  "st_foo = init_state
     \<lparr>doc_symbols_new := [(''alpha'', [''foo'' \<mapsto> 0])],
      objs := [\<lparr> package = ''alpha'', item_group = ''class'', base_url = ''https://a/'',
                 relative_url_path = ''api.html'', symbol_id = ''foo'', symbol_name = ''foo'',
                 attributes = [0] \<rparr>]\<rparr>"

subsection \<open>Reading the tables\<close>

text \<open>\<open>self.doc_symbols_new[pkg].get(name)\<close>, and \<open>None\<close> for a package without a table.\<close>

definition table_get :: "state \<Rightarrow> string \<Rightarrow> string \<Rightarrow> nat option" where
  "table_get st pkg name = (case dict_get (doc_symbols_new st) pkg of None \<Rightarrow> None | Some t \<Rightarrow> t name)"

text \<open>The states that the registrations produce. The keys of \<open>doc_symbols_new\<close> are
  distinct (it is a \<open>dict\<close>); every table entry refers to an object of the store, and the
  table of a package holds objects of that package only; every member of an
  \<open>attributes\<close> list is an object of the store, of the package of the object that owns
  the list.\<close>

definition wf_state :: "state \<Rightarrow> bool" where
  "wf_state st \<longleftrightarrow>
     distinct (map fst (doc_symbols_new st))
     \<and> (\<forall>p n a. table_get st p n = Some a \<longrightarrow> a < length (objs st) \<and> package (objs st ! a) = p)
     \<and> (\<forall>a c. a < length (objs st) \<longrightarrow> c \<in> set (attributes (objs st ! a)) \<longrightarrow>
            c < length (objs st) \<and> package (objs st ! c) = package (objs st ! a))"


text \<open>The state that a call leaves behind, whether it returned or raised.\<close>

definition the_state :: "(error \<times> state) + state \<Rightarrow> state" where
  "the_state r = (case r of Inr s \<Rightarrow> s | Inl (e, s) \<Rightarrow> s)"

subsection \<open>\<open>refresh_event\<close> and \<open>symbol_get_event\<close>: readers and the refresh interleaved\<close>

text \<open>The coroutines of the cog run on one thread, and a coroutine gives up control only
  at an \<open>await\<close> that has to wait. The model cuts \<open>create_symbol_embed\<close>,
  \<open>refresh_inventories\<close> and \<open>update_or_reschedule_inventory\<close> at those awaits: an event
  is the run of one coroutine from one suspension to the next, and a schedule is a list of
  events. \<open>_docs_autocomplete\<close> reads the tables between two awaits of its caller and is
  one event.

  \<open>refresh_event\<close> is an \<open>asyncio.Event\<close>, set when the cog is made (line 204).
  Modelled from the spec: the class \<open>SharedEvent\<close> of \<open>monty.utils.lock\<close> is not among the
  source files. The spec describes it as a read counter that a reader increments for the
  duration of its operation and decrements on completion, and for which the writer waits
  until it drains to zero: \<open>symbol_get_event\<close> is that counter, \<open>with\<close> adds one on entry and
  takes one off on exit, and \<open>wait()\<close> returns when it is zero. The decorator \<open>lock\<close> of
  the callers of \<open>refresh_inventories\<close> is absent as well; by the spec a refresh requested
  while one is in progress fails at once, so a refresh starts only when none is running.\<close>

text \<open>Where a call of \<open>create_symbol_embed\<close> is, with the name it was called with:
  suspended at line 562 (\<open>await self.refresh_event.wait()\<close>); released by
  \<open>refresh_event.set()\<close>, which marks the waiting coroutines as ready and runs none of
  them; inside the \<open>with\<close> block, suspended in \<open>get_symbol_markdown\<close> (line 581);
  returned.\<close>

datatype reader_pc = Waiting | Woken | Inside | Returned

text \<open>Where \<open>refresh_inventories\<close> is: not running; suspended at line 457
  (\<open>await self.symbol_get_event.wait()\<close>) with admission closed; past lines 459 to 463,
  the tables cleared, suspended before \<open>gather\<close> (lines 464 and 488); suspended in
  \<open>gather\<close> (line 490) or in \<open>refresh_whitelist_and_blacklist\<close> (line 493).\<close>

datatype writer_pc = W_idle | W_draining | W_cleared | W_gathering

text \<open>What a read of the tables is recorded with: how the reader came to read (it found
  \<open>refresh_event\<close> set at line 560; it waited at line 562; it tests no event), where the
  refresh was at that moment, the name asked for, what the lookup returned, and the
  ledger entry read for the footer.\<close>

datatype admission = Direct | After_wait | Ungated

record obs =
  how :: admission
  during :: writer_pc
  asked :: string
  got :: "string \<times> nat option"
  similar :: "string list"

text \<open>The cog with its two events, the refresh, the coroutines of \<open>gather\<close> that have not
  returned (marked \<open>True\<close> while the \<open>gather\<close> that started them is awaited), the calls of
  \<open>create_symbol_embed\<close> in the order of their arrival, and the reads made so far.\<close>

record sys =
  cog :: state
  refresh_event :: bool
  symbol_get_event :: nat
  writer :: writer_pc
  pending :: "(bool \<times> string \<times> string \<times> string) list"
  readers :: "(reader_pc \<times> string) list"
  reads :: "obs list"

text \<open>The events. \<open>Embed_call\<close>: \<open>create_symbol_embed\<close> is called and runs from line 560
  to its first suspension. \<open>Embed_resume r\<close>: the call number \<open>r\<close>, released at line 562,
  runs on from line 564. \<open>Embed_exit r\<close>: \<open>get_symbol_markdown\<close> has returned to the call
  \<open>r\<close>, which leaves the \<open>with\<close> block. \<open>Autocomplete\<close>: a lookup
  \<open>self.doc_symbols_all.get(sentence)\<close> by the \<open>processor\<close> of \<open>_docs_autocomplete\<close> (line
  745), which runs for a guild with a blacklist. \<open>Refresh_call\<close>: lines 456 and 457.
  \<open>Refresh_clear\<close>: lines 458 to 464. \<open>Refresh_gather\<close>: the packages have arrived from the
  database and \<open>gather\<close> starts one \<open>update_or_reschedule_inventory\<close> for each (lines 486
  to 490). \<open>Fetch_done k f\<close>: the fetch of the pending coroutine number \<open>k\<close> returns \<open>f\<close>
  and the coroutine runs to its end. \<open>Retry_done\<close>: the same for a coroutine that the
  scheduler started. \<open>Refresh_finish\<close>: \<open>gather\<close> and the whitelist are done, line 500.\<close>

datatype event =
    Embed_call string
  | Embed_resume nat
  | Embed_exit nat
  | Autocomplete string
  | Refresh_call
  | Refresh_clear
  | Refresh_gather "(string \<times> string \<times> string) list"
  | Fetch_done nat fetch_result
  | Retry_done string string string fetch_result
  | Refresh_finish

definition sys_init :: "state \<Rightarrow> sys" where
  "sys_init cg = \<lparr> cog = cg, refresh_event = True, symbol_get_event = 0, writer = W_idle,
     pending = [], readers = [], reads = [] \<rparr>"

text \<open>Lines 564 to 581 for the call number \<open>r\<close>: enter the block, look the name up, read
  the ledger, and either return \<open>None\<close>, which leaves the block in the same step, or
  suspend in \<open>get_symbol_markdown\<close>.\<close>

definition symbol_get :: "nat \<Rightarrow> admission \<Rightarrow> sys \<Rightarrow> sys" where
  "symbol_get r h s =
     (let sname = snd (readers s ! r);
          res = get_symbol_item (cog s) sname;
          footer = (if snd res = None then [] else renamed_symbols (cog s) (fst res));
          s1 = s\<lparr>reads := reads s @
                  [\<lparr>how = h, during = writer s, asked = sname, got = res, similar = footer\<rparr>]\<rparr>
      in if snd res = None
         then s1\<lparr>readers := (readers s)[r := (Returned, sname)]\<rparr>
         else s1\<lparr>symbol_get_event := symbol_get_event s + 1,
                 readers := (readers s)[r := (Inside, sname)]\<rparr>)"

text \<open>One event; \<open>None\<close> when the event cannot happen in the state. \<open>Embed_resume\<close>
  does not look at \<open>refresh_event\<close>: line 564 follows line 562 without a second test.
  \<open>Autocomplete\<close> looks at neither event. A coroutine of \<open>gather\<close> that raises ends the
  \<open>gather\<close> and with it \<open>refresh_inventories\<close>, before line 500: \<open>refresh_event\<close> stays
  cleared, and the other coroutines run on on their own.\<close>

definition step ::
  "string list \<Rightarrow> (int \<times> string list) list \<Rightarrow> event \<Rightarrow> sys \<Rightarrow> sys option" where
  "step prio bm ev s =
     (case ev of
        Embed_call sname \<Rightarrow>
          (let s0 = s\<lparr>readers := readers s @ [(Waiting, sname)]\<rparr>
           in Some (if refresh_event s then symbol_get (length (readers s)) Direct s0 else s0))
      | Embed_resume r \<Rightarrow>
          if r < length (readers s) \<and> fst (readers s ! r) = Woken
          then Some (symbol_get r After_wait s) else None
      | Embed_exit r \<Rightarrow>
          if r < length (readers s) \<and> fst (readers s ! r) = Inside
          then Some (s\<lparr>symbol_get_event := symbol_get_event s - 1,
                       readers := (readers s)[r := (Returned, snd (readers s ! r))]\<rparr>)
          else None
      | Autocomplete sname \<Rightarrow>
          Some (s\<lparr>reads := reads s @
                  [\<lparr>how = Ungated, during = writer s, asked = sname,
                    got = (sname, doc_symbols_all (cog s) sname), similar = []\<rparr>]\<rparr>)
      | Refresh_call \<Rightarrow>
          if writer s = W_idle
          then Some (s\<lparr>refresh_event := False, writer := W_draining\<rparr>) else None
      | Refresh_clear \<Rightarrow>
          if writer s = W_draining \<and> symbol_get_event s = 0
          then Some (s\<lparr>cog := clear_inventories (cog s), writer := W_cleared\<rparr>) else None
      | Refresh_gather srcs \<Rightarrow>
          if writer s = W_cleared
          then Some (s\<lparr>pending := pending s @ map (Pair True) srcs, writer := W_gathering\<rparr>)
          else None
      | Fetch_done k f \<Rightarrow>
          if k < length (pending s)
          then (let (own, p, b, u) = pending s ! k;
                    r = snd (update_or_reschedule_inventory prio bm p b u f (cog s));
                    rest = take k (pending s) @ drop (Suc k) (pending s);
                    s1 = s\<lparr>cog := the_state r\<rparr>
                in Some (if own \<and> isl r
                         then s1\<lparr>pending := map (\<lambda>(_, src). (False, src)) rest,
                                 writer := W_idle\<rparr>
                         else s1\<lparr>pending := rest\<rparr>))
          else None
      | Retry_done p b u f \<Rightarrow>
          if scheduler_contains (cog s) p
          then Some (s\<lparr>cog := the_state
                        (snd (update_or_reschedule_inventory prio bm p b u f (cog s)))\<rparr>)
          else None
      | Refresh_finish \<Rightarrow>
          if writer s = W_gathering \<and> True \<notin> set (map fst (pending s))
          then Some (s\<lparr>refresh_event := True, writer := W_idle,
                       readers := map (\<lambda>(pc, n). (if pc = Waiting then Woken else pc, n))
                                    (readers s)\<rparr>)
          else None)"

text \<open>A schedule, from the first event on.\<close>

fun run ::
  "string list \<Rightarrow> (int \<times> string list) list \<Rightarrow> event list \<Rightarrow> sys \<Rightarrow> sys option" where
  "run prio bm [] s = Some s"
| "run prio bm (ev # evs) s =
     (case step prio bm ev s of None \<Rightarrow> None | Some s' \<Rightarrow> run prio bm evs s')"


subsection \<open>Example inventories and the states they build\<close>

text \<open>One class \<open>Widget\<close>.\<close>

definition inv_widget :: inventory where
  "inv_widget = [(''py:class'', [(''Widget'', ''api.html#Widget'')])]"


text \<open>A class \<open>Foo\<close> and its method \<open>Foo.bar\<close>.\<close>

definition inv_foo_bar :: inventory where
  "inv_foo_bar = [(''py:class'', [(''Foo'', ''api.html#Foo'')]),
                  (''py:method'', [(''Foo.bar'', ''api.html#Foo.bar'')])]"

text \<open>A label \<open>Foo\<close>.\<close>

definition inv_foo_label :: inventory where
  "inv_foo_label = [(''std:label'', [(''Foo'', ''index.html#foo'')])]"

text \<open>Two labels \<open>Foo\<close>, of the domains \<open>std\<close> and \<open>rst\<close>, and a label called
  \<open>label.Foo\<close>.\<close>

definition inv_label_tie :: inventory where
  "inv_label_tie = [(''std:label'', [(''Foo'', ''index.html#foo''), (''label.Foo'', ''index.html#label-foo'')]),
                    (''rst:label'', [(''Foo'', ''ref.html#foo'')])]"

text \<open>\<open>alpha\<close> registers \<open>Widget\<close>, then \<open>beta\<close>, which is on the priority list, registers
  \<open>Widget\<close>.\<close>

definition st_alpha :: state where
  "st_alpha = the_state (update_single [''beta''] ''alpha'' ''https://a/'' inv_widget [] init_state)"

definition st_alpha_beta :: state where
  "st_alpha_beta = the_state (update_single [''beta''] ''beta'' ''https://b/'' inv_widget [] st_alpha)"



text \<open>\<open>gamma\<close> registers \<open>Foo\<close> and \<open>Foo.bar\<close>, once and twice.\<close>

definition st_gamma :: state where
  "st_gamma = the_state (update_single [] ''gamma'' ''https://g/'' inv_foo_bar [] init_state)"


text \<open>\<open>gamma\<close> registers the label \<open>Foo\<close>; \<open>gamma\<close> registers the three labels of
  \<open>inv_label_tie\<close>; the single entry \<open>Foo\<close> of \<open>gamma\<close> stored in the empty state.\<close>

definition st_label :: state where
  "st_label = the_state (update_single [] ''gamma'' ''https://g/'' inv_foo_label [] init_state)"

definition st_tie :: state where
  "st_tie = the_state (update_single [] ''gamma'' ''https://g/'' inv_label_tie [] init_state)"

definition st_foo_item :: state where
  "st_foo_item = the_state (update_item [] ''gamma'' ''https://g/'' [] ''py:class''
                    (''Foo'', ''api.html#Foo'') init_state)"





section \<open>Properties\<close>

subsection \<open>Lookup by name\<close>

lemma split_head_decomp:
  "c \<in> set s \<Longrightarrow> s = split_head c s @ c # tl (dropWhile (\<lambda>x. x \<noteq> c) s)"
  unfolding split_head_def
  by (metis (mono_tags, lifting) dropWhile_eq_Nil_conv hd_dropWhile list.collapse
      takeWhile_dropWhile_id)

lemma split_head_no_sep: "c \<notin> set (split_head c s)"
  unfolding split_head_def by (auto dest: set_takeWhileD)

text \<open>
  C10. \<open>get_symbol_item\<close> looks the whole name up in the unfiltered view. When that fails
  and the name has a space, it looks up the text before the first space and returns that
  word with what the second lookup gave. A name without a space, and a name that was
  found, is returned as it is with the result of the first lookup.
\<close>

theorem get_symbol_item_spec:
  "(doc_symbols_all st n = None \<and> CHR '' '' \<in> set n \<longrightarrow>
      (\<exists>w rest. n = w @ CHR '' '' # rest \<and> CHR '' '' \<notin> set w
         \<and> get_symbol_item st n = (w, doc_symbols_all st w)))
   \<and> (CHR '' '' \<notin> set n \<longrightarrow> get_symbol_item st n = (n, doc_symbols_all st n))
   \<and> (doc_symbols_all st n \<noteq> None \<longrightarrow> get_symbol_item st n = (n, doc_symbols_all st n))"
proof (intro conjI impI)
  assume a: "doc_symbols_all st n = None \<and> CHR '' '' \<in> set n"
  let ?w = "split_head CHR '' '' n"
  have "n = ?w @ CHR '' '' # tl (dropWhile (\<lambda>x. x \<noteq> CHR '' '') n)"
    using a split_head_decomp by blast
  moreover have "CHR '' '' \<notin> set ?w" by (rule split_head_no_sep)
  moreover have "get_symbol_item st n = (?w, doc_symbols_all st ?w)"
    using a by (simp add: get_symbol_item_def Let_def)
  ultimately show "\<exists>w rest. n = w @ CHR '' '' # rest \<and> CHR '' '' \<notin> set w
         \<and> get_symbol_item st n = (w, doc_symbols_all st w)" by blast
next
  assume "CHR '' '' \<notin> set n"
  then show "get_symbol_item st n = (n, doc_symbols_all st n)"
    by (simp add: get_symbol_item_def Let_def)
next
  assume "doc_symbols_all st n \<noteq> None"
  then show "get_symbol_item st n = (n, doc_symbols_all st n)"
    by (auto simp add: get_symbol_item_def Let_def)
qed

text \<open>The three cases on \<open>st_foo\<close>: \<open>"foo bar"\<close> falls back to \<open>"foo"\<close>, \<open>"bar"\<close> is not
  found, \<open>"foo"\<close> is found directly.\<close>

theorem get_symbol_item_spec_witness:
  "doc_symbols_all st_foo ''foo bar'' = None \<and> CHR '' '' \<in> set ''foo bar''
   \<and> get_symbol_item st_foo ''foo bar'' = (''foo'', Some 0)
   \<and> CHR '' '' \<notin> set ''bar'' \<and> get_symbol_item st_foo ''bar'' = (''bar'', None)
   \<and> doc_symbols_all st_foo ''foo'' \<noteq> None
   \<and> get_symbol_item st_foo ''foo'' = (''foo'', Some 0)"
  using get_symbol_item_spec [of st_foo "''foo bar''"]
    get_symbol_item_spec [of st_foo "''bar''"] get_symbol_item_spec [of st_foo "''foo''"]
  by (simp add: get_symbol_item_def split_head_def doc_symbols_all_def st_foo_def
      init_state_def)

subsection \<open>Ranking in the autocomplete\<close>

text \<open>
  C6. For the query \<open>"Widget"\<close> the candidate \<open>"Widget"\<close>, whose similarity is 100, gets
  the boost of 20 for containing the lower-cased query and no boost of 50: the test for
  equality compares the lower-cased candidate with the query as typed. The query
  \<open>"widget"\<close> gets both boosts. With the similarities 100, 50 and 200/3 of the three
  candidates and the threshold 45 the ranking is \<open>Widget\<close>, \<open>widget_factory\<close>, \<open>gadget\<close>.
\<close>

theorem exact_match_boost_needs_lower_case_query:
  "tweak_score ''Widget'' (''Widget'', 100) = (''Widget'', 120)
   \<and> tweak_score ''widget'' (''Widget'', 100) = (''Widget'', 170)
   \<and> docs_autocomplete []
        (\<lambda>q. [(''gadget'', 200 / 3), (''widget_factory'', 50), (''Widget'', 100)])
        ''Widget'' 45 False = [''Widget'', ''widget_factory'', ''gadget'']"
  by (simp add: docs_autocomplete_def strip_def is_space_def sorted_desc_def tweak_score_def
      lower_def lower_char_def upper_chars_def lower_chars_def)

subsection \<open>Retries of a failed fetch\<close>

lemma failed_step_delay:
  assumes "fetch_failed f"
  shows "\<exists>st'. snd (update_or_reschedule_inventory prio bm p b u f st) = Inr st'
     \<and> scheduler_contains st' p
     \<and> inventory_scheduler st' p = Some (if scheduler_contains st p then 300 else 120)"
  using assms
  by (auto simp: fetch_failed_def update_or_reschedule_inventory_def schedule_later_def
      scheduler_contains_def scheduler_cancel_def FETCH_RESCHEDULE_DELAY_repeated_def
      FETCH_RESCHEDULE_DELAY_first_def)

lemma retry_chain_scheduled:
  assumes "\<forall>f \<in> set fs. fetch_failed f" "fs \<noteq> []" "scheduler_contains st p"
  shows "\<exists>st'. retry_chain prio bm p b u fs st = Inr st' \<and> scheduler_contains st' p
           \<and> inventory_scheduler st' p = Some 300"
  using assms
proof (induction fs arbitrary: st)
  case Nil
  then show ?case by simp
next
  case (Cons f fs)
  from Cons.prems have ff: "fetch_failed f" by simp
  from failed_step_delay[OF ff, where prio=prio and bm=bm and p=p and b=b and u=u and st=st]
    Cons.prems(3)
  obtain st1 where s1: "snd (update_or_reschedule_inventory prio bm p b u f st) = Inr st1"
    "scheduler_contains st1 p" "inventory_scheduler st1 p = Some 300" by auto
  show ?case
  proof (cases "fs = []")
    case True
    then show ?thesis using s1 ff by simp
  next
    case False
    with Cons.IH[of st1] Cons.prems s1 ff show ?thesis by simp
  qed
qed

text \<open>
  C7. A source that is not scheduled and whose fetch fails (nothing, or an empty
  inventory, comes back) is scheduled again after \<open>FETCH_RESCHEDULE_DELAY.first\<close>
  minutes; when the retries keep failing, every later one is scheduled after
  \<open>FETCH_RESCHEDULE_DELAY.repeated\<close> minutes. The delays are in seconds.
\<close>

theorem retry_delay_first_then_repeated:
  assumes "\<forall>f \<in> set fs. fetch_failed f" and "fs \<noteq> []" and "\<not> scheduler_contains st p"
  shows "\<exists>st'. retry_chain prio bm p b u fs st = Inr st'
           \<and> inventory_scheduler st' p =
               Some (if length fs = 1 then FETCH_RESCHEDULE_DELAY_first * 60
                     else FETCH_RESCHEDULE_DELAY_repeated * 60)"
proof (cases fs)
  case Nil
  with assms show ?thesis by simp
next
  case (Cons f fs')
  from assms Cons have ff: "fetch_failed f" by simp
  from failed_step_delay[OF ff, where prio=prio and bm=bm and p=p and b=b and u=u and st=st]
    assms(3)
  obtain st1 where s1: "snd (update_or_reschedule_inventory prio bm p b u f st) = Inr st1"
    "scheduler_contains st1 p" "inventory_scheduler st1 p = Some 120" by auto
  show ?thesis
  proof (cases "fs' = []")
    case True
    then show ?thesis using s1 ff Cons by (simp add: FETCH_RESCHEDULE_DELAY_first_def)
  next
    case False
    from retry_chain_scheduled[where fs=fs' and p=p and st=st1 and prio=prio and bm=bm
        and b=b and u=u] assms(1) Cons False s1
    obtain st' where "retry_chain prio bm p b u fs' st1 = Inr st'"
      "inventory_scheduler st' p = Some 300"
      by auto
    then show ?thesis using s1 ff Cons False
      by (simp add: FETCH_RESCHEDULE_DELAY_repeated_def)
  qed
qed

text \<open>One failed fetch of \<open>alpha\<close> from the initial state schedules it after 120 seconds,
  three in a row leave it scheduled after 300 seconds.\<close>

theorem retry_delay_first_then_repeated_witness:
  "fetch_failed (Fetched None) \<and> fetch_failed (Fetched (Some []))
   \<and> \<not> scheduler_contains init_state ''alpha''
   \<and> (\<exists>st'. retry_chain [] [] ''alpha'' [] ''https://a/objects.inv'' [Fetched None] init_state
                = Inr st' \<and> inventory_scheduler st' ''alpha'' = Some 120)
   \<and> (\<exists>st'. retry_chain [] [] ''alpha'' [] ''https://a/objects.inv''
                [Fetched None, Fetched (Some []), Fetched None] init_state = Inr st'
              \<and> inventory_scheduler st' ''alpha'' = Some 300)"
  using retry_delay_first_then_repeated
          [of "[Fetched None]" init_state "''alpha''" "[]" "[]" "[]" "''https://a/objects.inv''"]
        retry_delay_first_then_repeated
          [of "[Fetched None, Fetched (Some []), Fetched None]" init_state "''alpha''"
              "[]" "[]" "[]" "''https://a/objects.inv''"]
  by (simp add: fetch_failed_def scheduler_contains_def init_state_def
      FETCH_RESCHEDULE_DELAY_first_def FETCH_RESCHEDULE_DELAY_repeated_def)

subsection \<open>An invalid inventory header\<close>

lemma invalid_header_step:
  "update_or_reschedule_inventory prio bm p b u (InvalidHeaderError e) st =
     ([''Invalid inventory header at '' @ u @ ''. Reason: '' @ e], Inr st)"
  by (simp add: update_or_reschedule_inventory_def)

lemma gather_append:
  "gather_updates prio bm (ps @ qs) st =
     (case gather_updates prio bm ps st of
        (w1, e1, st1) \<Rightarrow>
          (case gather_updates prio bm qs st1 of
             (w2, e2, st2) \<Rightarrow>
               (w1 @ w2, (case e1 of None \<Rightarrow> e2 | Some e \<Rightarrow> Some e), st2)))"
proof (induction ps arbitrary: st)
  case Nil
  show ?case by (simp split: prod.splits)
next
  case (Cons x ps)
  obtain p b u f where x: "x = (p, b, u, f)" by (cases x) auto
  show ?case unfolding x
    by (simp add: Cons.IH split: prod.splits sum.splits option.splits)
qed

text \<open>
  C8. When the fetch raises \<open>InvalidHeaderError\<close>, \<open>update_or_reschedule_inventory\<close> logs
  one warning and returns with the state as it was: nothing is scheduled and no table is
  touched. In a refresh, the exception raised and the state reached are those of the
  refresh without that source, whatever the sources before and after it do, and the
  warning is among those logged.
\<close>

theorem invalid_header_isolated:
  "update_or_reschedule_inventory prio bm p b u (InvalidHeaderError e) st =
     ([''Invalid inventory header at '' @ u @ ''. Reason: '' @ e], Inr st)
   \<and> snd (gather_updates prio bm (ps @ (p, b, u, InvalidHeaderError e) # qs) st0) =
       snd (gather_updates prio bm (ps @ qs) st0)
   \<and> (''Invalid inventory header at '' @ u @ ''. Reason: '' @ e)
       \<in> set (fst (gather_updates prio bm (ps @ (p, b, u, InvalidHeaderError e) # qs) st0))"
  by (simp add: gather_append[of prio bm ps] invalid_header_step split: prod.splits)

subsection \<open>Dictionaries and the layered view\<close>

lemma dict_get_dict_set: "dict_get (dict_set xs k v) k' = (if k' = k then Some v else dict_get xs k')"
  by (induction xs) auto

lemma map_fst_dict_set:
  "map fst (dict_set xs k v) = (if k \<in> set (map fst xs) then map fst xs else map fst xs @ [k])"
  by (induction xs) (auto split: if_splits)

lemma distinct_dict_set: "distinct (map fst xs) \<Longrightarrow> distinct (map fst (dict_set xs k v))"
  by (simp add: map_fst_dict_set)


lemma dict_get_distinct: "distinct (map fst xs) \<Longrightarrow> (k, v) \<in> set xs \<Longrightarrow> dict_get xs k = Some v"
  by (induction xs) (auto simp: rev_image_eqI)

lemma chain_get_Some: "chain_get ms k = Some v \<Longrightarrow> \<exists>m \<in> set ms. m k = Some v"
  by (induction ms) (auto split: option.splits)


lemma all_Some_table:
  assumes "distinct (map fst (doc_symbols_new st))" "doc_symbols_all st n = Some a"
  shows "\<exists>p. table_get st p n = Some a"
proof -
  from assms(2) obtain m where "m \<in> set (map snd (doc_symbols_new st))" "m n = Some a"
    unfolding doc_symbols_all_def using chain_get_Some by fastforce
  then obtain p where "(p, m) \<in> set (doc_symbols_new st)" by auto
  with assms(1) have "dict_get (doc_symbols_new st) p = Some m" by (rule dict_get_distinct)
  with \<open>m n = Some a\<close> have "table_get st p n = Some a" by (simp add: table_get_def)
  then show ?thesis ..
qed


subsection \<open>The shape of \<open>rename\<close>, \<open>ensure_unique_symbol_name\<close> and \<open>update_item\<close>\<close>

lemma rename_not_extant:
  "rename pkg grp n item prefix False st =
     Inr (if doc_symbols_all st (prefix @ ''.'' @ n) \<noteq> None then pkg @ ''.'' @ grp @ ''.'' @ n
          else prefix @ ''.'' @ n,
          st\<lparr>renamed_symbols := (renamed_symbols st)
                (n := renamed_symbols st n @
                   [if doc_symbols_all st (prefix @ ''.'' @ n) \<noteq> None
                    then pkg @ ''.'' @ grp @ ''.'' @ n else prefix @ ''.'' @ n])\<rparr>)"
  by (simp add: rename_def Let_def doc_symbols_all_def)

lemma rename_extant:
  assumes "doc_symbols_all st n = Some item"
    and "dict_get (doc_symbols_new st) (package (objs st ! item)) = Some tbl"
  shows "rename pkg grp n item prefix True st =
     Inr (n,
          st\<lparr>renamed_symbols := (renamed_symbols st)
                (n := renamed_symbols st n @
                   [if doc_symbols_all st (prefix @ ''.'' @ n) \<noteq> None
                    then package (objs st ! item) @ ''.'' @ item_group (objs st ! item) @ ''.'' @ n
                    else prefix @ ''.'' @ n]),
              doc_symbols_new := dict_set (doc_symbols_new st) (package (objs st ! item))
                (tbl((if doc_symbols_all st (prefix @ ''.'' @ n) \<noteq> None
                      then package (objs st ! item) @ ''.'' @ item_group (objs st ! item) @ ''.'' @ n
                      else prefix @ ''.'' @ n) \<mapsto> item))\<rparr>)"
  using assms by (simp add: rename_def Let_def doc_symbols_all_def)

lemma rename_extant_Inr:
  assumes "rename pkg grp n item prefix True st = Inr (name, st')"
    and "doc_symbols_all st n = Some item"
  shows "\<exists>tbl. dict_get (doc_symbols_new st) (package (objs st ! item)) = Some tbl"
  using assms by (auto simp: rename_def Let_def doc_symbols_all_def split: option.splits)

lemma rename_shape:
  assumes "rename pkg grp n item prefix ext st = Inr (name, st')"
    and "doc_symbols_all st n = Some item"
  shows "\<exists>nn. (name = nn \<and> st' = st\<lparr>renamed_symbols := (renamed_symbols st)(n := renamed_symbols st n @ [nn])\<rparr>)
            \<or> (name = n \<and> (\<exists>tbl. dict_get (doc_symbols_new st) (package (objs st ! item)) = Some tbl
                  \<and> st' = st\<lparr>renamed_symbols := (renamed_symbols st)(n := renamed_symbols st n @ [nn]),
                        doc_symbols_new := dict_set (doc_symbols_new st) (package (objs st ! item)) (tbl(nn \<mapsto> item))\<rparr>))"
proof (cases ext)
  case False
  with assms(1) show ?thesis by (auto simp: rename_not_extant)
next
  case True
  with assms(1) have r: "rename pkg grp n item prefix True st = Inr (name, st')" by simp
  from rename_extant_Inr[OF this assms(2)] obtain tbl
    where t: "dict_get (doc_symbols_new st) (package (objs st ! item)) = Some tbl" by blast
  from r[unfolded rename_extant[OF assms(2) t]] t show ?thesis by blast
qed

lemma ensure_unique_shape:
  assumes "ensure_unique_symbol_name prio pkg grp n st = Inr (name, st')"
  shows "(doc_symbols_all st n = None \<and> name = n \<and> st' = st) \<or>
         (\<exists>item nn. doc_symbols_all st n = Some item \<and>
            ((name = nn \<and> st' = st\<lparr>renamed_symbols := (renamed_symbols st)(n := renamed_symbols st n @ [nn])\<rparr>)
            \<or> (name = n \<and> (\<exists>tbl. dict_get (doc_symbols_new st) (package (objs st ! item)) = Some tbl
                  \<and> st' = st\<lparr>renamed_symbols := (renamed_symbols st)(n := renamed_symbols st n @ [nn]),
                        doc_symbols_new := dict_set (doc_symbols_new st) (package (objs st ! item)) (tbl(nn \<mapsto> item))\<rparr>))))"
proof (cases "doc_symbols_all st n")
  case None
  with assms show ?thesis by (simp add: ensure_unique_symbol_name_def)
next
  case (Some item)
  from assms Some obtain prefix ext where "rename pkg grp n item prefix ext st = Inr (name, st')"
    by (auto simp: ensure_unique_symbol_name_def Let_def split: if_splits)
  from rename_shape[OF this Some] Some show ?thesis by blast
qed

lemma update_item_shape:
  assumes "update_item prio pkg burl bl g e st = Inr st'"
  shows "\<exists>gname name st1. ensure_unique_symbol_name prio pkg gname (fst e) st = Inr (name, st1)
           \<and> st' = store_item pkg burl bl gname name (snd e) st1"
  using assms
  unfolding update_item_def Let_def
  by (auto split: if_splits sum.splits prod.splits)

subsection \<open>What \<open>store_item\<close> changes\<close>

lemma store_item_tables:
  "doc_symbols_new (store_item pkg burl bl gname name u st) =
     dict_set (doc_symbols_new st) pkg
       ((case dict_get (doc_symbols_new st) pkg of None \<Rightarrow> Map.empty | Some t \<Rightarrow> t)
          (name \<mapsto> length (objs st)))"
  by (simp add: store_item_def Let_def split: prod.splits option.splits)


lemma store_item_length:
  "length (objs (store_item pkg burl bl gname name u st)) = Suc (length (objs st))"
  by (simp add: store_item_def Let_def split: prod.splits option.splits)

lemma table_get_renamed [simp]:
  "table_get (st\<lparr>renamed_symbols := r\<rparr>) = table_get st"
  by (simp add: table_get_def fun_eq_iff)

lemma table_get_reinsert:
  assumes "dict_get (doc_symbols_new st) p = Some tbl"
  shows "table_get (st\<lparr>doc_symbols_new := dict_set (doc_symbols_new st) p (tbl(nn \<mapsto> item))\<rparr>) q m
           = (if q = p \<and> m = nn then Some item else table_get st q m)"
  using assms by (simp add: table_get_def dict_get_dict_set)

lemma table_get_store_item:
  "table_get (store_item pkg burl bl gname name u st) q m =
     (if q = pkg \<and> m = name then Some (length (objs st)) else table_get st q m)"
  by (simp add: table_get_def store_item_tables dict_get_dict_set split: option.splits)

lemma store_item_objs:
  "\<exists>os. os = objs st @ [\<lparr>package = pkg, item_group = gname, base_url = burl,
              relative_url_path = fst (partition_sep CHR ''#'' u),
              symbol_id = snd (snd (partition_sep CHR ''#'' u)), symbol_name = name,
              attributes = []\<rparr>]
     \<and> objs (store_item pkg burl bl gname name u st) =
         (case table_get (store_item pkg burl bl gname name u st) pkg (rsplit_head CHR ''.'' name) of
            None \<Rightarrow> os
          | Some parent \<Rightarrow>
              if package (os ! parent) = pkg
              then os[parent := (os ! parent)\<lparr>attributes := attributes (os ! parent) @ [length (objs st)]\<rparr>]
              else os)"
  by (simp add: table_get_def store_item_tables dict_get_dict_set)
     (simp add: store_item_def Let_def split: prod.splits option.splits)

lemma store_item_parent_range:
  assumes "wf_state st"
    and "table_get (store_item pkg burl bl gname name u st) pkg m = Some parent"
  shows "parent \<le> length (objs st)
         \<and> package ((objs st @ [new\<lparr>package := pkg\<rparr>]) ! parent) = pkg"
proof (cases "m = name")
  case True
  with assms(2) have "parent = length (objs st)" by (simp add: table_get_store_item)
  then show ?thesis by simp
next
  case False
  with assms(2) have "table_get st pkg m = Some parent" by (simp add: table_get_store_item)
  with assms(1) have "parent < length (objs st)" "package (objs st ! parent) = pkg"
    unfolding wf_state_def by blast+
  then show ?thesis by (simp add: nth_append)
qed

lemma store_item_objs_wf:
  assumes "wf_state st"
  shows "\<exists>new. package new = pkg \<and> item_group new = gname \<and> symbol_name new = name
           \<and> attributes new = [] \<and> base_url new = burl
     \<and> objs (store_item pkg burl bl gname name u st) =
         (case table_get (store_item pkg burl bl gname name u st) pkg (rsplit_head CHR ''.'' name) of
            None \<Rightarrow> objs st @ [new]
          | Some parent \<Rightarrow>
              (objs st @ [new])[parent := ((objs st @ [new]) ! parent)
                 \<lparr>attributes := attributes ((objs st @ [new]) ! parent) @ [length (objs st)]\<rparr>])"
proof -
  let ?st' = "store_item pkg burl bl gname name u st"
  from store_item_objs[of st pkg gname burl u name bl] obtain os where
    os: "os = objs st @ [\<lparr>package = pkg, item_group = gname, base_url = burl,
              relative_url_path = fst (partition_sep CHR ''#'' u),
              symbol_id = snd (snd (partition_sep CHR ''#'' u)), symbol_name = name,
              attributes = []\<rparr>]"
    and ob: "objs ?st' =
         (case table_get ?st' pkg (rsplit_head CHR ''.'' name) of
            None \<Rightarrow> os
          | Some parent \<Rightarrow>
              if package (os ! parent) = pkg
              then os[parent := (os ! parent)\<lparr>attributes := attributes (os ! parent) @ [length (objs st)]\<rparr>]
              else os)" by blast
  let ?new = "\<lparr>package = pkg, item_group = gname, base_url = burl,
              relative_url_path = fst (partition_sep CHR ''#'' u),
              symbol_id = snd (snd (partition_sep CHR ''#'' u)), symbol_name = name,
              attributes = []\<rparr>"
  have "objs ?st' =
         (case table_get ?st' pkg (rsplit_head CHR ''.'' name) of
            None \<Rightarrow> objs st @ [?new]
          | Some parent \<Rightarrow>
              (objs st @ [?new])[parent := ((objs st @ [?new]) ! parent)
                 \<lparr>attributes := attributes ((objs st @ [?new]) ! parent) @ [length (objs st)]\<rparr>])"
  proof (cases "table_get ?st' pkg (rsplit_head CHR ''.'' name)")
    case None
    with ob os show ?thesis by simp
  next
    case (Some parent)
    from store_item_parent_range[OF assms Some, of ?new]
    have "package (os ! parent) = pkg" unfolding os by simp
    with ob os Some show ?thesis by simp
  qed
  then show ?thesis by (intro exI[of _ ?new]) simp
qed

lemma store_item_nth:
  assumes "wf_state st" "a \<le> length (objs st)"
  shows "\<exists>new. package new = pkg \<and> item_group new = gname \<and> symbol_name new = name
           \<and> attributes new = [] \<and> base_url new = burl
     \<and> objs (store_item pkg burl bl gname name u st) ! a =
         ((objs st @ [new]) ! a)
           \<lparr>attributes := attributes ((objs st @ [new]) ! a) @
              (if table_get (store_item pkg burl bl gname name u st) pkg (rsplit_head CHR ''.'' name) = Some a
               then [length (objs st)] else [])\<rparr>"
proof -
  let ?st' = "store_item pkg burl bl gname name u st"
  let ?tg = "table_get ?st' pkg (rsplit_head CHR ''.'' name)"
  from store_item_objs_wf[OF assms(1), of pkg gname name burl bl u] obtain new where
    n: "package new = pkg" "item_group new = gname" "symbol_name new = name"
       "attributes new = []" "base_url new = burl"
    and ob: "objs ?st' =
         (case ?tg of
            None \<Rightarrow> objs st @ [new]
          | Some parent \<Rightarrow>
              (objs st @ [new])[parent := ((objs st @ [new]) ! parent)
                 \<lparr>attributes := attributes ((objs st @ [new]) ! parent) @ [length (objs st)]\<rparr>])"
    by blast
  have "objs ?st' ! a = ((objs st @ [new]) ! a)
           \<lparr>attributes := attributes ((objs st @ [new]) ! a) @
              (if ?tg = Some a then [length (objs st)] else [])\<rparr>"
  proof (cases ?tg)
    case None
    with ob show ?thesis by simp
  next
    case (Some parent)
    from store_item_parent_range[OF assms(1) Some, of new]
    have len: "parent < length (objs st @ [new])" by simp
    from ob Some have "objs ?st' = (objs st @ [new])[parent := ((objs st @ [new]) ! parent)
                 \<lparr>attributes := attributes ((objs st @ [new]) ! parent) @ [length (objs st)]\<rparr>]"
      by simp
    then have "objs ?st' ! a = (if parent = a then ((objs st @ [new]) ! parent)
                 \<lparr>attributes := attributes ((objs st @ [new]) ! parent) @ [length (objs st)]\<rparr>
                 else (objs st @ [new]) ! a)"
      by (simp only: nth_list_update[OF len])
    with Some show ?thesis by simp
  qed
  with n show ?thesis by blast
qed

lemma store_item_package_old:
  assumes "wf_state st" "a < length (objs st)"
  shows "package (objs (store_item pkg burl bl gname name u st) ! a) = package (objs st ! a)"
proof -
  from assms(2) have "a \<le> length (objs st)" by simp
  from store_item_nth[OF assms(1) this, of pkg gname name burl bl u] assms(2)
  show ?thesis by (auto simp: nth_append)
qed

lemma store_item_new:
  assumes "wf_state st"
  shows "package (objs (store_item pkg burl bl gname name u st) ! length (objs st)) = pkg
     \<and> symbol_name (objs (store_item pkg burl bl gname name u st) ! length (objs st)) = name
     \<and> item_group (objs (store_item pkg burl bl gname name u st) ! length (objs st)) = gname"
  using store_item_nth[OF assms(1) order_refl, of pkg gname name burl bl u]
  by (auto simp: nth_append)

lemma store_item_attributes:
  assumes "wf_state st" "a \<le> length (objs st)"
  shows "attributes (objs (store_item pkg burl bl gname name u st) ! a) =
     (if a < length (objs st) then attributes (objs st ! a) else [])
     @ (if table_get (store_item pkg burl bl gname name u st) pkg (rsplit_head CHR ''.'' name) = Some a
        then [length (objs st)] else [])"
proof -
  from store_item_nth[OF assms, of pkg gname name burl bl u] obtain new where
    "attributes new = []"
    "objs (store_item pkg burl bl gname name u st) ! a =
         ((objs st @ [new]) ! a)
           \<lparr>attributes := attributes ((objs st @ [new]) ! a) @
              (if table_get (store_item pkg burl bl gname name u st) pkg (rsplit_head CHR ''.'' name) = Some a
               then [length (objs st)] else [])\<rparr>" by blast
  with assms(2) show ?thesis by (cases "a < length (objs st)") (simp_all add: nth_append)
qed

subsection \<open>Registrations keep the state well formed\<close>

lemma wf_renamed [simp]: "wf_state (st\<lparr>renamed_symbols := r\<rparr>) = wf_state st"
  by (simp add: wf_state_def)

lemma wf_base_urls [simp]: "wf_state (st\<lparr>base_urls := r\<rparr>) = wf_state st"
  by (simp add: wf_state_def table_get_def)

lemma wf_reinsert:
  assumes "wf_state st" and "doc_symbols_all st n = Some item"
    and "dict_get (doc_symbols_new st) (package (objs st ! item)) = Some tbl"
  shows "wf_state (st\<lparr>doc_symbols_new :=
               dict_set (doc_symbols_new st) (package (objs st ! item)) (tbl(nn \<mapsto> item))\<rparr>)"
proof -
  let ?p = "package (objs st ! item)"
  let ?st' = "st\<lparr>doc_symbols_new := dict_set (doc_symbols_new st) ?p (tbl(nn \<mapsto> item))\<rparr>"
  from assms(1) have d: "distinct (map fst (doc_symbols_new st))" by (simp add: wf_state_def)
  from all_Some_table[OF d assms(2)] obtain p0 where "table_get st p0 n = Some item" ..
  with assms(1) have it: "item < length (objs st)" unfolding wf_state_def by blast
  have tg: "\<And>q m. table_get ?st' q m = (if q = ?p \<and> m = nn then Some item else table_get st q m)"
    by (rule table_get_reinsert[OF assms(3)])
  have "distinct (map fst (doc_symbols_new ?st'))" using d by (simp add: distinct_dict_set)
  moreover have "\<forall>p m a. table_get ?st' p m = Some a \<longrightarrow> a < length (objs ?st') \<and> package (objs ?st' ! a) = p"
  proof (intro allI impI)
    fix p m a assume "table_get ?st' p m = Some a"
    then have "(p = ?p \<and> a = item) \<or> table_get st p m = Some a"
      unfolding tg by (auto split: if_splits)
    then show "a < length (objs ?st') \<and> package (objs ?st' ! a) = p"
      using it assms(1) unfolding wf_state_def by auto
  qed
  moreover have "\<forall>a c. a < length (objs ?st') \<longrightarrow> c \<in> set (attributes (objs ?st' ! a)) \<longrightarrow>
            c < length (objs ?st') \<and> package (objs ?st' ! c) = package (objs ?st' ! a)"
    using assms(1) unfolding wf_state_def by simp
  ultimately show ?thesis unfolding wf_state_def by blast
qed

lemma wf_store_item:
  assumes "wf_state st"
  shows "wf_state (store_item pkg burl bl gname name u st)"
proof -
  let ?st' = "store_item pkg burl bl gname name u st"
  from assms have d: "distinct (map fst (doc_symbols_new st))" by (simp add: wf_state_def)
  have len: "length (objs ?st') = Suc (length (objs st))" by (rule store_item_length)
  have i2: "a < length (objs ?st') \<and> package (objs ?st' ! a) = p"
    if "table_get ?st' p m = Some a" for p m a
  proof (cases "p = pkg \<and> m = name")
    case True
    with that have "a = length (objs st)" by (simp add: table_get_store_item)
    with True store_item_new[OF assms, of pkg burl bl gname name u] len show ?thesis by simp
  next
    case False
    with that have "table_get st p m = Some a" by (simp add: table_get_store_item)
    with assms have "a < length (objs st)" "package (objs st ! a) = p" unfolding wf_state_def by blast+
    with store_item_package_old[OF assms, of a pkg burl bl gname name u] len show ?thesis by simp
  qed
  have i3: "c < length (objs ?st') \<and> package (objs ?st' ! c) = package (objs ?st' ! a)"
    if a: "a < length (objs ?st')" and c: "c \<in> set (attributes (objs ?st' ! a))" for a c
  proof -
    from a len have ale: "a \<le> length (objs st)" by simp
    from c have "(a < length (objs st) \<and> c \<in> set (attributes (objs st ! a)))
       \<or> (c = length (objs st) \<and> table_get ?st' pkg (rsplit_head CHR ''.'' name) = Some a)"
      unfolding store_item_attributes[OF assms ale] by (auto split: if_splits)
    then show ?thesis
    proof
      assume h: "a < length (objs st) \<and> c \<in> set (attributes (objs st ! a))"
      with assms have "c < length (objs st)" "package (objs st ! c) = package (objs st ! a)"
        unfolding wf_state_def by blast+
      with h store_item_package_old[OF assms, of _ pkg burl bl gname name u] len
      show ?thesis by simp
    next
      assume h: "c = length (objs st) \<and> table_get ?st' pkg (rsplit_head CHR ''.'' name) = Some a"
      with i2 have "package (objs ?st' ! a) = pkg" by blast
      with h store_item_new[OF assms, of pkg burl bl gname name u] len show ?thesis by simp
    qed
  qed
  have "distinct (map fst (doc_symbols_new ?st'))"
    using d by (simp add: store_item_tables distinct_dict_set)
  with i2 i3 show ?thesis unfolding wf_state_def by blast
qed

lemma doc_symbols_all_renamed [simp]:
  "doc_symbols_all (st\<lparr>renamed_symbols := r\<rparr>) = doc_symbols_all st"
  by (simp add: doc_symbols_all_def fun_eq_iff)

lemma wf_reinsert_renamed:
  assumes "wf_state st" and "doc_symbols_all st n = Some item"
    and "dict_get (doc_symbols_new st) (package (objs st ! item)) = Some tbl"
  shows "wf_state (st\<lparr>renamed_symbols := r, doc_symbols_new :=
               dict_set (doc_symbols_new st) (package (objs st ! item)) (tbl(nn \<mapsto> item))\<rparr>)"
  using wf_reinsert[of "st\<lparr>renamed_symbols := r\<rparr>" n item tbl nn] assms by simp

lemma wf_ensure_unique:
  assumes "wf_state st" and "ensure_unique_symbol_name prio pkg grp n st = Inr (name, st')"
  shows "wf_state st' \<and> objs st' = objs st"
  using ensure_unique_shape[OF assms(2)] assms(1)
  by (auto simp: wf_reinsert_renamed)

lemma wf_update_item:
  assumes "wf_state st" and "update_item prio pkg burl bl g e st = Inr st'"
  shows "wf_state st'"
  using update_item_shape[OF assms(2)] assms(1) wf_ensure_unique wf_store_item by blast

lemma wf_update_items:
  "wf_state st \<Longrightarrow> update_items prio pkg burl bl g es st = Inr st' \<Longrightarrow> wf_state st'"
proof (induction es arbitrary: st)
  case Nil
  then show ?case by simp
next
  case (Cons e es)
  from Cons.prems(2) obtain st1 where "update_item prio pkg burl bl g e st = Inr st1"
    "update_items prio pkg burl bl g es st1 = Inr st'" by (auto split: sum.splits)
  with Cons.IH[of st1] wf_update_item[OF Cons.prems(1)] show ?case by blast
qed

lemma wf_update_groups:
  "wf_state st \<Longrightarrow> update_groups prio pkg burl bl ivt st = Inr st' \<Longrightarrow> wf_state st'"
proof (induction ivt arbitrary: st)
  case Nil
  then show ?case by simp
next
  case (Cons ge ivt)
  obtain g es where ge: "ge = (g, es)" by (cases ge)
  from Cons.prems(2) ge obtain st1 where "update_items prio pkg burl bl g es st = Inr st1"
    "update_groups prio pkg burl bl ivt st1 = Inr st'" by (auto split: sum.splits)
  with Cons.IH[of st1] wf_update_items[OF Cons.prems(1)] show ?case by blast
qed

lemma wf_update_single:
  assumes "wf_state st" and "update_single prio pkg burl ivt bl st = Inr st'"
  shows "wf_state st'"
proof -
  have "wf_state (st\<lparr>base_urls := dict_set (base_urls st) pkg burl\<rparr>)" using assms(1) by simp
  from wf_update_groups[OF this] assms(2) show ?thesis unfolding update_single_def by blast
qed

lemma wf_init: "wf_state init_state"
  by (simp add: wf_state_def init_state_def table_get_def)

subsection \<open>The ledger over a registration\<close>








lemma doc_symbols_all_base_urls [simp]:
  "doc_symbols_all (st\<lparr>base_urls := r\<rparr>) = doc_symbols_all st"
  by (simp add: doc_symbols_all_def fun_eq_iff)


subsection \<open>Conflicts\<close>

lemma wf_item_table:
  assumes "wf_state st" and "doc_symbols_all st n = Some item"
  shows "\<exists>tbl. dict_get (doc_symbols_new st) (package (objs st ! item)) = Some tbl"
proof -
  from assms(1) have d: "distinct (map fst (doc_symbols_new st))" by (simp add: wf_state_def)
  from all_Some_table[OF d assms(2)] obtain p where p: "table_get st p n = Some item" ..
  with assms(1) have "package (objs st ! item) = p" unfolding wf_state_def by blast
  with p show ?thesis by (auto simp: table_get_def split: option.splits)
qed

lemma rename_extant_observed:
  fixes prefix :: string
  assumes "wf_state st" and "doc_symbols_all st n = Some item"
  defines "nn \<equiv> (if doc_symbols_all st (prefix @ ''.'' @ n) \<noteq> None
                  then package (objs st ! item) @ ''.'' @ item_group (objs st ! item) @ ''.'' @ n
                  else prefix @ ''.'' @ n)"
  shows "\<exists>st'. rename pkg grp n item prefix True st = Inr (n, st')
           \<and> renamed_symbols st' = (renamed_symbols st)(n := renamed_symbols st n @ [nn])
           \<and> table_get st' (package (objs st ! item)) nn = Some item
           \<and> (\<forall>q m. (q, m) \<noteq> (package (objs st ! item), nn) \<longrightarrow> table_get st' q m = table_get st q m)
           \<and> objs st' = objs st"
proof -
  from wf_item_table[OF assms(1,2)] obtain tbl
    where t: "dict_get (doc_symbols_new st) (package (objs st ! item)) = Some tbl" ..
  let ?st1 = "st\<lparr>renamed_symbols := (renamed_symbols st)(n := renamed_symbols st n @ [nn])\<rparr>"
  let ?st' = "?st1\<lparr>doc_symbols_new := dict_set (doc_symbols_new st) (package (objs st ! item)) (tbl(nn \<mapsto> item))\<rparr>"
  have r: "rename pkg grp n item prefix True st = Inr (n, ?st')"
    unfolding rename_extant[OF assms(2) t] nn_def by simp
  have tg: "table_get ?st' q m = (if q = package (objs st ! item) \<and> m = nn then Some item else table_get st q m)" for q m
    using table_get_reinsert[of ?st1 "package (objs st ! item)" tbl nn item q m] t by simp
  have "renamed_symbols ?st' = (renamed_symbols st)(n := renamed_symbols st n @ [nn])" by simp
  moreover have "table_get ?st' (package (objs st ! item)) nn = Some item" unfolding tg by simp
  moreover have "\<forall>q m. (q, m) \<noteq> (package (objs st ! item), nn) \<longrightarrow> table_get ?st' q m = table_get st q m"
    unfolding tg by auto
  moreover have "objs ?st' = objs st" by simp
  ultimately show ?thesis using r by blast
qed


text \<open>
  C4. An incoming entry of the package \<open>pkg\<close> and of a group \<open>grp\<close> of
  \<open>FORCE_PREFIX_GROUPS\<close>, whose name \<open>n\<close> is taken by an entry of the same package, of
  the group \<open>eg\<close>. If \<open>eg\<close> is in \<open>FORCE_PREFIX_GROUPS\<close> at a later position than \<open>grp\<close>,
  the name is returned as it is and the existing entry is inserted into the table of the
  package under \<open>eg.n\<close>. If \<open>eg\<close> is in \<open>FORCE_PREFIX_GROUPS\<close> at the same or an earlier
  position, or is not in it, the incoming entry is the one renamed, to \<open>grp.n\<close>, and only
  the ledger changes. A prefixed name that is taken is replaced by \<open>pkg.group.n\<close>, with
  the group of the entry that is renamed. The new name is appended to the ledger under
  \<open>n\<close>.
\<close>

theorem same_source_low_priority_group:
  fixes pkg grp :: string
  assumes "wf_state st" and "doc_symbols_all st n = Some item"
    and "package (objs st ! item) = pkg" and "grp \<in> set FORCE_PREFIX_GROUPS"
  defines "eg \<equiv> item_group (objs st ! item)"
  defines "nn_ext \<equiv> (if doc_symbols_all st (eg @ ''.'' @ n) \<noteq> None
                  then pkg @ ''.'' @ eg @ ''.'' @ n else eg @ ''.'' @ n)"
    and "nn_inc \<equiv> (if doc_symbols_all st (grp @ ''.'' @ n) \<noteq> None
                  then pkg @ ''.'' @ grp @ ''.'' @ n else grp @ ''.'' @ n)"
  shows "(eg \<in> set FORCE_PREFIX_GROUPS
            \<and> index_of FORCE_PREFIX_GROUPS grp < index_of FORCE_PREFIX_GROUPS eg \<longrightarrow>
           (\<exists>st'. ensure_unique_symbol_name prio pkg grp n st = Inr (n, st')
              \<and> renamed_symbols st' = (renamed_symbols st)(n := renamed_symbols st n @ [nn_ext])
              \<and> table_get st' pkg nn_ext = Some item
              \<and> (\<forall>q m. (q, m) \<noteq> (pkg, nn_ext) \<longrightarrow> table_get st' q m = table_get st q m)
              \<and> objs st' = objs st))
       \<and> (eg \<in> set FORCE_PREFIX_GROUPS
            \<and> index_of FORCE_PREFIX_GROUPS eg \<le> index_of FORCE_PREFIX_GROUPS grp \<longrightarrow>
            ensure_unique_symbol_name prio pkg grp n st =
              Inr (nn_inc, st\<lparr>renamed_symbols :=
                              (renamed_symbols st)(n := renamed_symbols st n @ [nn_inc])\<rparr>))
       \<and> (eg \<notin> set FORCE_PREFIX_GROUPS \<longrightarrow>
            ensure_unique_symbol_name prio pkg grp n st =
              Inr (nn_inc, st\<lparr>renamed_symbols :=
                              (renamed_symbols st)(n := renamed_symbols st n @ [nn_inc])\<rparr>))"
proof (intro conjI impI)
  assume a: "eg \<in> set FORCE_PREFIX_GROUPS
            \<and> index_of FORCE_PREFIX_GROUPS grp < index_of FORCE_PREFIX_GROUPS eg"
  have "ensure_unique_symbol_name prio pkg grp n st = rename pkg grp n item eg True st"
    using assms(2,3,4) a unfolding eg_def by (simp add: ensure_unique_symbol_name_def Let_def)
  with rename_extant_observed[OF assms(1,2), where prefix=eg and pkg=pkg and grp=grp,
      unfolded assms(3)]
  show "\<exists>st'. ensure_unique_symbol_name prio pkg grp n st = Inr (n, st')
              \<and> renamed_symbols st' = (renamed_symbols st)(n := renamed_symbols st n @ [nn_ext])
              \<and> table_get st' pkg nn_ext = Some item
              \<and> (\<forall>q m. (q, m) \<noteq> (pkg, nn_ext) \<longrightarrow> table_get st' q m = table_get st q m)
              \<and> objs st' = objs st"
    unfolding nn_ext_def eg_def by simp
next
  assume a: "eg \<in> set FORCE_PREFIX_GROUPS
            \<and> index_of FORCE_PREFIX_GROUPS eg \<le> index_of FORCE_PREFIX_GROUPS grp"
  have "ensure_unique_symbol_name prio pkg grp n st = rename pkg grp n item grp False st"
    using assms(2,3,4) a unfolding eg_def by (simp add: ensure_unique_symbol_name_def Let_def)
  then show "ensure_unique_symbol_name prio pkg grp n st =
              Inr (nn_inc, st\<lparr>renamed_symbols :=
                              (renamed_symbols st)(n := renamed_symbols st n @ [nn_inc])\<rparr>)"
    unfolding nn_inc_def by (simp add: rename_not_extant)
next
  assume a: "eg \<notin> set FORCE_PREFIX_GROUPS"
  have "ensure_unique_symbol_name prio pkg grp n st = rename pkg grp n item grp False st"
    using assms(2,3,4) a unfolding eg_def by (simp add: ensure_unique_symbol_name_def Let_def)
  then show "ensure_unique_symbol_name prio pkg grp n st =
              Inr (nn_inc, st\<lparr>renamed_symbols :=
                              (renamed_symbols st)(n := renamed_symbols st n @ [nn_inc])\<rparr>)"
    unfolding nn_inc_def by (simp add: rename_not_extant)
qed

text \<open>
  C9. One entry stored by \<open>update_item\<close> in a well-formed state: one object is added, of
  the package that is being registered; the \<open>attributes\<close> list of every object, the new
  one included, is what it was (empty for the new one), with the new object appended
  exactly when the table of the package has that object, after the store, under the name
  of the new entry cut before its last dot, which for a name without a dot is the name
  itself. \<open>update_single\<close> keeps a well-formed state well formed, and there every member
  of an \<open>attributes\<close> list is of the package of the object that owns the list.
\<close>

theorem children_same_package:
  "(wf_state st \<and> update_item prio pkg burl bl g e st = Inr st' \<longrightarrow>
      length (objs st') = Suc (length (objs st))
      \<and> package (objs st' ! length (objs st)) = pkg
      \<and> (\<forall>a. a \<le> length (objs st) \<longrightarrow>
            attributes (objs st' ! a) =
              (if a < length (objs st) then attributes (objs st ! a) else [])
              @ (if table_get st' pkg
                      (rsplit_head CHR ''.'' (symbol_name (objs st' ! length (objs st)))) = Some a
                 then [length (objs st)] else [])))
   \<and> (wf_state st \<and> update_single prio pkg burl ivt bl st = Inr st'' \<longrightarrow>
        wf_state st''
        \<and> (\<forall>a c. a < length (objs st'') \<longrightarrow> c \<in> set (attributes (objs st'' ! a)) \<longrightarrow>
              c < length (objs st'') \<and> package (objs st'' ! c) = package (objs st'' ! a)))"
proof (intro conjI impI)
  assume a: "wf_state st \<and> update_item prio pkg burl bl g e st = Inr st'"
  then have w: "wf_state st" and u: "update_item prio pkg burl bl g e st = Inr st'" by simp_all
  from update_item_shape[OF u] obtain gname name st1 where
    eu: "ensure_unique_symbol_name prio pkg gname (fst e) st = Inr (name, st1)"
    and st': "st' = store_item pkg burl bl gname name (snd e) st1" by blast
  from wf_ensure_unique[OF w eu] have w1: "wf_state st1" and o1: "objs st1 = objs st" by simp_all
  show "length (objs st') = Suc (length (objs st))"
    unfolding st' by (simp add: store_item_length o1)
  show "package (objs st' ! length (objs st)) = pkg"
    unfolding st' using store_item_new[OF w1, of pkg burl bl gname name "snd e"] o1 by simp
  have sn: "symbol_name (objs st' ! length (objs st)) = name"
    unfolding st' using store_item_new[OF w1, of pkg burl bl gname name "snd e"] o1 by simp
  show "\<forall>a. a \<le> length (objs st) \<longrightarrow>
            attributes (objs st' ! a) =
              (if a < length (objs st) then attributes (objs st ! a) else [])
              @ (if table_get st' pkg
                      (rsplit_head CHR ''.'' (symbol_name (objs st' ! length (objs st)))) = Some a
                 then [length (objs st)] else [])"
  proof (intro allI impI)
    fix a assume "a \<le> length (objs st)"
    then have "a \<le> length (objs st1)" using o1 by simp
    from store_item_attributes[OF w1 this, of pkg burl bl gname name "snd e"]
    show "attributes (objs st' ! a) =
              (if a < length (objs st) then attributes (objs st ! a) else [])
              @ (if table_get st' pkg
                      (rsplit_head CHR ''.'' (symbol_name (objs st' ! length (objs st)))) = Some a
                 then [length (objs st)] else [])"
      unfolding sn unfolding st' o1 by simp
  qed
next
  assume a: "wf_state st \<and> update_single prio pkg burl ivt bl st = Inr st''"
  then have "wf_state st''" using wf_update_single by blast
  then show "wf_state st''" .
  from \<open>wf_state st''\<close> show "\<forall>a c. a < length (objs st'') \<longrightarrow> c \<in> set (attributes (objs st'' ! a)) \<longrightarrow>
              c < length (objs st'') \<and> package (objs st'' ! c) = package (objs st'' ! a)"
    unfolding wf_state_def by blast
qed

subsection \<open>The example states\<close>

lemmas eval_defs = update_single_def update_item_def store_item_def ensure_unique_symbol_name_def
  rename_def doc_symbols_all_def partition_sep_def rsplit_head_def init_state_def table_get_def
  Let_def FORCE_PREFIX_GROUPS_def the_state_def




text \<open>
  C1. \<open>alpha\<close> registers \<open>Widget\<close>, then \<open>beta\<close>, which is in \<open>PRIORITY_PACKAGES\<close>,
  registers \<open>Widget\<close>. The entry of \<open>alpha\<close> is inserted into the table of \<open>alpha\<close> under
  \<open>alpha.Widget\<close> and stays there under \<open>Widget\<close> as well: \<open>rename\<close> adds a key and deletes
  none. The entry of \<open>beta\<close> is stored under \<open>Widget\<close> in the table of \<open>beta\<close>. The layered
  view asks the tables in the order of their creation, so \<open>Widget\<close> is answered with the
  entry of \<open>alpha\<close>, which two names now reach, and no name reaches the entry of \<open>beta\<close>.
\<close>

theorem renamed_entry_stays_under_old_name:
  "update_single [''beta''] ''alpha'' ''https://a/'' inv_widget [] init_state = Inr st_alpha
   \<and> update_single [''beta''] ''beta'' ''https://b/'' inv_widget [] st_alpha = Inr st_alpha_beta
   \<and> table_get st_alpha_beta ''alpha'' ''Widget'' = Some 0
   \<and> table_get st_alpha_beta ''alpha'' ''alpha.Widget'' = Some 0
   \<and> table_get st_alpha_beta ''beta'' ''Widget'' = Some 1
   \<and> package (objs st_alpha_beta ! 0) = ''alpha''
   \<and> package (objs st_alpha_beta ! 1) = ''beta''
   \<and> doc_symbols_all st_alpha_beta ''Widget'' = Some 0
   \<and> renamed_symbols st_alpha_beta ''Widget'' = [''alpha.Widget'']"
  unfolding st_alpha_beta_def st_alpha_def by (simp add: eval_defs inv_widget_def)



lemma st_gamma_run:
  "update_single [] ''gamma'' ''https://g/'' inv_foo_bar [] init_state = Inr st_gamma"
  unfolding st_gamma_def by (simp add: eval_defs inv_foo_bar_def)


lemma st_gamma_facts:
  "doc_symbols_all st_gamma ''Foo'' = Some 0" "package (objs st_gamma ! 0) = ''gamma''"
  "item_group (objs st_gamma ! 0) = ''class''"
  "doc_symbols_all st_gamma ''label.Foo'' = None"
  "renamed_symbols st_gamma ''Foo'' = []"
  "table_get st_gamma ''gamma'' ''Foo'' = Some 0"
  "table_get st_gamma ''gamma'' ''Foo.bar'' = Some 1"
  "symbol_name (objs st_gamma ! 0) = ''Foo''"
  "attributes (objs st_gamma ! 0) = [0, 1]"
  "attributes (objs st_gamma ! 1) = []"
  "package (objs st_gamma ! 1) = ''gamma''"
  "package (objs st_gamma ! Suc 0) = ''gamma''"
  unfolding st_gamma_def by (simp_all add: eval_defs inv_foo_bar_def)

lemma wf_st_gamma: "wf_state st_gamma"
  using wf_update_single[OF wf_init st_gamma_run] .



lemma st_label_run:
  "update_single [] ''gamma'' ''https://g/'' inv_foo_label [] init_state = Inr st_label"
  unfolding st_label_def by (simp add: eval_defs inv_foo_label_def)

lemma st_label_facts:
  "doc_symbols_all st_label ''Foo'' = Some 0" "package (objs st_label ! 0) = ''gamma''"
  "item_group (objs st_label ! 0) = ''label''"
  "doc_symbols_all st_label ''label.Foo'' = None"
  "doc_symbols_all st_label ''token.Foo'' = None"
  "renamed_symbols st_label ''Foo'' = []"
  unfolding st_label_def by (simp_all add: eval_defs inv_foo_label_def)

lemma wf_st_label: "wf_state st_label"
  using wf_update_single[OF wf_init st_label_run] .

text \<open>Two labels \<open>Foo\<close> of one package, the groups being equal: the existing entry keeps
  \<open>Foo\<close> and the incoming one is renamed; \<open>label.Foo\<close> being taken, it is stored under
  \<open>gamma.label.Foo\<close>.\<close>

theorem tie_renames_incoming:
  "update_single [] ''gamma'' ''https://g/'' inv_label_tie [] init_state = Inr st_tie
   \<and> table_get st_tie ''gamma'' ''Foo'' = Some 0
   \<and> table_get st_tie ''gamma'' ''label.Foo'' = Some 1
   \<and> table_get st_tie ''gamma'' ''gamma.label.Foo'' = Some 2
   \<and> item_group (objs st_tie ! 0) = ''label''
   \<and> item_group (objs st_tie ! 2) = ''label''
   \<and> relative_url_path (objs st_tie ! 0) = ''index.html''
   \<and> relative_url_path (objs st_tie ! 2) = ''ref.html''
   \<and> renamed_symbols st_tie ''Foo'' = [''gamma.label.Foo'']"
  unfolding st_tie_def by (simp add: eval_defs inv_label_tie_def)

text \<open>The name \<open>Foo\<close> has no dot, \<open>"Foo".rsplit(".", 1)[0]\<close> is \<open>"Foo"\<close>, and the entry
  just stored is found as its own parent: it is the first member of its own
  \<open>attributes\<close> list, before \<open>Foo.bar\<close>.\<close>

theorem undotted_entry_is_its_own_child:
  "update_single [] ''gamma'' ''https://g/'' inv_foo_bar [] init_state = Inr st_gamma
   \<and> table_get st_gamma ''gamma'' ''Foo'' = Some 0
   \<and> symbol_name (objs st_gamma ! 0) = ''Foo''
   \<and> CHR ''.'' \<notin> set ''Foo''
   \<and> attributes (objs st_gamma ! 0) = [0, 1]
   \<and> 0 \<in> set (attributes (objs st_gamma ! 0))"
  using st_gamma_run by (simp add: st_gamma_facts)

text \<open>On the existing label \<open>Foo\<close>: an incoming \<open>term\<close> (earlier in the list) has the
  label renamed to \<open>label.Foo\<close>, an incoming \<open>token\<close> (later) is itself renamed to
  \<open>token.Foo\<close>. On the existing class \<open>Foo\<close>, a group outside the list, an incoming label
  is renamed to \<open>label.Foo\<close>.\<close>

theorem same_source_low_priority_group_witness:
  "wf_state st_label \<and> doc_symbols_all st_label ''Foo'' = Some 0
   \<and> package (objs st_label ! 0) = ''gamma'' \<and> item_group (objs st_label ! 0) = ''label''
   \<and> ''term'' \<in> set FORCE_PREFIX_GROUPS \<and> ''token'' \<in> set FORCE_PREFIX_GROUPS
   \<and> index_of FORCE_PREFIX_GROUPS ''term'' < index_of FORCE_PREFIX_GROUPS ''label''
   \<and> index_of FORCE_PREFIX_GROUPS ''label'' \<le> index_of FORCE_PREFIX_GROUPS ''token''
   \<and> (\<exists>st'. ensure_unique_symbol_name [] ''gamma'' ''term'' ''Foo'' st_label = Inr (''Foo'', st')
            \<and> renamed_symbols st' ''Foo'' = [''label.Foo'']
            \<and> table_get st' ''gamma'' ''label.Foo'' = Some 0)
   \<and> ensure_unique_symbol_name [] ''gamma'' ''token'' ''Foo'' st_label =
        Inr (''token.Foo'',
             st_label\<lparr>renamed_symbols := (renamed_symbols st_label)(''Foo'' := [''token.Foo''])\<rparr>)
   \<and> wf_state st_gamma \<and> item_group (objs st_gamma ! 0) \<notin> set FORCE_PREFIX_GROUPS
   \<and> ensure_unique_symbol_name [] ''gamma'' ''label'' ''Foo'' st_gamma =
        Inr (''label.Foo'',
             st_gamma\<lparr>renamed_symbols := (renamed_symbols st_gamma)(''Foo'' := [''label.Foo''])\<rparr>)"
proof -
  have g1: "''term'' \<in> set FORCE_PREFIX_GROUPS" and g2: "''token'' \<in> set FORCE_PREFIX_GROUPS"
    and g3: "''label'' \<in> set FORCE_PREFIX_GROUPS"
    by (simp_all add: FORCE_PREFIX_GROUPS_def)
  have ix: "index_of FORCE_PREFIX_GROUPS ''term'' < index_of FORCE_PREFIX_GROUPS ''label''"
    "index_of FORCE_PREFIX_GROUPS ''label'' \<le> index_of FORCE_PREFIX_GROUPS ''token''"
    "''class'' \<notin> set FORCE_PREFIX_GROUPS"
    by (simp_all add: FORCE_PREFIX_GROUPS_def)
  note t1 = same_source_low_priority_group[OF wf_st_label st_label_facts(1,2) g1, where prio="[]"]
  note t2 = same_source_low_priority_group[OF wf_st_label st_label_facts(1,2) g2, where prio="[]"]
  note t3 = same_source_low_priority_group[OF wf_st_gamma st_gamma_facts(1,2) g3, where prio="[]"]
  from t1 ix g3 obtain st' where
    "ensure_unique_symbol_name [] ''gamma'' ''term'' ''Foo'' st_label = Inr (''Foo'', st')"
    "renamed_symbols st' ''Foo'' = [''label.Foo'']"
    "table_get st' ''gamma'' ''label.Foo'' = Some 0"
    by (auto simp: st_label_facts)
  then have a: "\<exists>st'. ensure_unique_symbol_name [] ''gamma'' ''term'' ''Foo'' st_label = Inr (''Foo'', st')
            \<and> renamed_symbols st' ''Foo'' = [''label.Foo'']
            \<and> table_get st' ''gamma'' ''label.Foo'' = Some 0" by blast
  from t2 ix g3 have b: "ensure_unique_symbol_name [] ''gamma'' ''token'' ''Foo'' st_label =
        Inr (''token.Foo'',
             st_label\<lparr>renamed_symbols := (renamed_symbols st_label)(''Foo'' := [''token.Foo''])\<rparr>)"
    by (simp add: st_label_facts)
  from t3 ix have c: "ensure_unique_symbol_name [] ''gamma'' ''label'' ''Foo'' st_gamma =
        Inr (''label.Foo'',
             st_gamma\<lparr>renamed_symbols := (renamed_symbols st_gamma)(''Foo'' := [''label.Foo''])\<rparr>)"
    by (simp add: st_gamma_facts)
  from a b c g1 g2 ix wf_st_label wf_st_gamma show ?thesis
    by (simp add: st_label_facts st_gamma_facts)
qed

lemma st_foo_item_run:
  "update_item [] ''gamma'' ''https://g/'' [] ''py:class'' (''Foo'', ''api.html#Foo'') init_state
     = Inr st_foo_item"
  unfolding st_foo_item_def by (simp add: eval_defs)

lemma st_foo_item_facts:
  "table_get st_foo_item ''gamma'' ''Foo'' = Some 0"
  "symbol_name (objs st_foo_item ! 0) = ''Foo''"
  "objs init_state = []"
  unfolding st_foo_item_def by (simp_all add: eval_defs)

text \<open>The entry \<open>Foo\<close> stored in the empty state, and the registration of \<open>Foo\<close> and
  \<open>Foo.bar\<close>.\<close>

theorem children_same_package_witness:
  "wf_state init_state
   \<and> update_item [] ''gamma'' ''https://g/'' [] ''py:class'' (''Foo'', ''api.html#Foo'') init_state
       = Inr st_foo_item
   \<and> update_single [] ''gamma'' ''https://g/'' inv_foo_bar [] init_state = Inr st_gamma
   \<and> length (objs st_foo_item) = 1 \<and> package (objs st_foo_item ! 0) = ''gamma''
   \<and> attributes (objs st_foo_item ! 0) = [0]
   \<and> wf_state st_gamma
   \<and> attributes (objs st_gamma ! 0) = [0, 1]
   \<and> package (objs st_gamma ! 1) = package (objs st_gamma ! 0)"
proof -
  note t = children_same_package[where st=init_state and prio="[]" and pkg="''gamma''"
      and burl="''https://g/''" and bl="[]" and g="''py:class''" and e="(''Foo'', ''api.html#Foo'')"
      and st'=st_foo_item and ivt=inv_foo_bar and st''=st_gamma]
  from t wf_init st_foo_item_run have
    "length (objs st_foo_item) = 1 \<and> package (objs st_foo_item ! 0) = ''gamma''
     \<and> attributes (objs st_foo_item ! 0) = [0]"
    by (simp add: st_foo_item_facts rsplit_head_def)
  moreover from t wf_init st_gamma_run have "wf_state st_gamma" by simp
  ultimately show ?thesis using wf_init st_foo_item_run st_gamma_run
    by (simp add: st_gamma_facts)
qed

subsection \<open>Readers and the refresh\<close>












lemmas gate_defs = step_def symbol_get_def sys_init_def get_symbol_item_def
  clear_inventories_def scheduler_cancel_all_def update_or_reschedule_inventory_def
  scheduler_contains_def Let_def







text \<open>A call of \<open>create_symbol_embed\<close> that waited reads without a second test of
  \<open>refresh_event\<close>. A reader arrives during a refresh and waits; the refresh ends and
  releases it; before the reader runs, a second refresh is requested, finds nobody inside
  the block and clears the tables; the reader resumes and finds nothing under
  \<open>Widget\<close>.\<close>

theorem resumed_reader_reads_cleared_table:
  "doc_symbols_all st_alpha ''Widget'' = Some 0
   \<and> map_option reads
       (run [] []
          [Refresh_call, Embed_call ''Widget'', Refresh_clear,
           Refresh_gather [(''alpha'', ''https://a/'', ''https://a/objects.inv'')],
           Fetch_done 0 (Fetched (Some inv_widget)), Refresh_finish,
           Refresh_call, Refresh_clear, Embed_resume 0]
          (sys_init st_alpha))
     = Some [\<lparr>how = After_wait, during = W_cleared, asked = ''Widget'',
               got = (''Widget'', None), similar = []\<rparr>]"
  unfolding st_alpha_def
  by (simp add: gate_defs eval_defs inv_widget_def)

end
